theory Spec2Isabelle
  imports Complex_Main
begin

section \<open>The visualization subnode of the perception pipeline\<close>

text \<open>
  A shallow embedding of \<^verbatim>\<open>modules/perception/obstacle/onboard/visualization_subnode.cc\<close>:
  \<^verbatim>\<open>InitStream\<close>, \<^verbatim>\<open>SubscribeEvents\<close>, \<^verbatim>\<open>GetFrameData\<close> and \<^verbatim>\<open>ProcEvents\<close>.
  Member names lose their trailing underscore (\<^verbatim>\<open>init_\<close> is \<open>init\<close>), which Isabelle
  does not accept in a name. Log statements (\<^verbatim>\<open>AERROR\<close>, \<^verbatim>\<open>AINFO\<close>) have no effect on the
  node and are left out.
\<close>

subsection \<open>Events and payloads\<close>

text \<open>
  \<^verbatim>\<open>EventID\<close> is a C \<^verbatim>\<open>int\<close>; the identifiers are only compared. A timestamp is a
  \<^verbatim>\<open>double\<close> that the node copies and never computes with, so it is a \<open>real\<close> here.
\<close>

record EventMeta =
  event_id :: int

record Event =
  event_id :: int
  timestamp :: real
  reserve :: string

text \<open>
  Modelled from the spec: the structs \<^verbatim>\<open>Event\<close> and \<^verbatim>\<open>EventMeta\<close> are declared outside
  the sources; the spec gives an event as a kind-identifying number, a timestamp and the
  label of the originating device, which the node reads as \<^verbatim>\<open>event_id\<close>,
  \<^verbatim>\<open>timestamp\<close> and \<^verbatim>\<open>reserve\<close>. \<open>Event_init\<close> is the event that \<^verbatim>\<open>Event event;\<close>
  declares, with the zero of each member.
\<close>

definition Event_init :: Event where
  "Event_init = \<lparr>Event.event_id = 0, timestamp = 0, reserve = ''''\<rparr>"

text \<open>
  The payloads (\<^verbatim>\<open>cv::Mat\<close>, \<^verbatim>\<open>Eigen::Matrix4d\<close>, the detected objects) are opaque to
  the node: it moves them from a store into the frame content. Each is a tagged number.
\<close>

datatype Mat = Mat nat
datatype Matrix4d = Matrix4d nat
datatype VisualObject = VisualObject nat

record CameraItem =
  image_src_mat :: Mat

record SensorObjects =
  objects :: "VisualObject list"
  sensor2world_pose :: Matrix4d
  cipv_index :: int

record FusionItem =
  obstacles :: "VisualObject list"

subsection \<open>The keyed stores\<close>

text \<open>
  Modelled from the spec: the keyed stores (\<^verbatim>\<open>CameraSharedData\<close>, \<^verbatim>\<open>CameraObjectData\<close>,
  \<^verbatim>\<open>CIPVObjectData\<close>, \<^verbatim>\<open>RadarObjectData\<close>, \<^verbatim>\<open>FusionSharedData\<close>) are declared outside the
  sources; the spec gives them as \<^verbatim>\<open>get(key) -> optional Payload\<close>. A store maps a key to
  a shared pointer, which may be null (\<open>None\<close>). \<^verbatim>\<open>Get(key, &item)\<close> returns whether the
  key is present and leaves \<^verbatim>\<open>item\<close> null when it is not.
\<close>

type_synonym 'a SharedData = "string \<rightharpoonup> 'a option"

definition SharedData_Get :: "'a SharedData \<Rightarrow> string \<Rightarrow> bool \<times> 'a option" where
  "SharedData_Get d key = (case d key of None \<Rightarrow> (False, None) | Some p \<Rightarrow> (True, p))"

subsection \<open>The frame content\<close>

text \<open>
  Modelled from the spec: \<^verbatim>\<open>FrameContent\<close> (\<^verbatim>\<open>frame_content.h\<close>) is not among the sources.
  The spec describes it as the accumulator holding the latest image, the camera detections
  with their pose, the radar detections, the fused obstacles, and the authoritative frame
  timestamp. Each setter stores its arguments as the latest value of its own field and
  touches no other field.
\<close>

record FrameContent =
  image_content :: "(real \<times> Mat) option"
  camera_content :: "(real \<times> Matrix4d \<times> VisualObject list) option"
  radar_content :: "(real \<times> VisualObject list) option"
  fusion_content :: "(real \<times> VisualObject list) option"
  frame_timestamp :: real

definition set_image_content :: "real \<Rightarrow> Mat \<Rightarrow> FrameContent \<Rightarrow> FrameContent" where
  "set_image_content ts img c = c\<lparr>image_content := Some (ts, img)\<rparr>"

definition set_camera_content ::
  "real \<Rightarrow> Matrix4d \<Rightarrow> VisualObject list \<Rightarrow> FrameContent \<Rightarrow> FrameContent" where
  "set_camera_content ts pose objs c = c\<lparr>camera_content := Some (ts, pose, objs)\<rparr>"

definition set_radar_content :: "real \<Rightarrow> VisualObject list \<Rightarrow> FrameContent \<Rightarrow> FrameContent" where
  "set_radar_content ts objs c = c\<lparr>radar_content := Some (ts, objs)\<rparr>"

definition set_fusion_content :: "real \<Rightarrow> VisualObject list \<Rightarrow> FrameContent \<Rightarrow> FrameContent" where
  "set_fusion_content ts objs c = c\<lparr>fusion_content := Some (ts, objs)\<rparr>"

definition update_timestamp :: "real \<Rightarrow> FrameContent \<Rightarrow> FrameContent" where
  "update_timestamp ts c = c\<lparr>frame_timestamp := ts\<rparr>"

subsection \<open>The event bus\<close>

text \<open>
  Modelled from the spec: the event bus (\<^verbatim>\<open>EventManager\<close>) is not among the sources. The
  spec gives \<^verbatim>\<open>subscribe(kind, blocking)\<close> with a blocking single read that waits until
  an event is available and a non-blocking read that reports when no event remains. The
  bus holds one queue for each identifier it knows. A read of an identifier without a queue
  fails; a non-blocking read of an empty queue fails; a blocking read of an empty queue
  never returns, which is the value \<open>None\<close>. A failed read leaves the caller's event as it
  was. The third argument is \<^verbatim>\<open>nonblocking\<close>, false when the call leaves it out.
\<close>

type_synonym EventManager = "int \<rightharpoonup> Event list"

definition Subscribe ::
  "EventManager \<Rightarrow> int \<Rightarrow> Event \<Rightarrow> bool \<Rightarrow> (bool \<times> Event \<times> EventManager) option" where
  "Subscribe em eid event nonblocking =
     (case em eid of
        None \<Rightarrow> Some (False, event, em)
      | Some [] \<Rightarrow> (if nonblocking then Some (False, event, em) else None)
      | Some (e # q) \<Rightarrow> Some (True, e, em(eid \<mapsto> q)))"

subsection \<open>The node\<close>

text \<open>The display toggles, \<^verbatim>\<open>FLAGS_show_radar_objects\<close> and the others.\<close>

record FLAGS =
  show_radar_objects :: bool
  show_camera_objects :: bool
  show_camera_objects2d :: bool
  show_camera_parsing :: bool
  show_fused_objects :: bool

text \<open>
  \<^verbatim>\<open>apollo::common::Status\<close>, with the two error codes the node uses: \<^verbatim>\<open>Status::OK()\<close>
  and \<^verbatim>\<open>Status(ErrorCode::PERCEPTION_ERROR, msg)\<close>.
\<close>

datatype ErrorCode = OK | PERCEPTION_ERROR

datatype Status = Status ErrorCode string

definition Status_OK :: Status where
  "Status_OK = Status OK ''''"

text \<open>
  The calls the node makes to its collaborators are recorded in the order they happen: a
  store lookup with its key, and the three calls to the frame visualizer, the last two
  with the frame content they are given. \<open>Correlate\<close> marks an invocation of
  \<^verbatim>\<open>GetFrameData\<close> from \<^verbatim>\<open>ProcEvents\<close>, with the identifier of the subscribed kind and
  the event.
\<close>

datatype StoreName =
  CameraSharedData | CameraObjectData | CIPVObjectData | RadarObjectData | FusionSharedData

datatype Call =
    Get StoreName string
  | Correlate int Event
  | VisInit
  | VisUpdateCameraSystem FrameContent
  | VisRender FrameContent

text \<open>
  The members of the node. A pointer member stands for the state of what it points to:
  \<open>event_manager\<close> is the bus, the five \<open>_data\<close> members are the stores. \<open>calls\<close> is the
  record of calls described above; the visualizer (\<^verbatim>\<open>frame_visualizer_\<close>) is known only
  through it, and is taken to read the content it is handed without changing it.
\<close>

record VisualizationSubnode =
  reserve :: string
  sub_meta_events :: "EventMeta list"
  vis_driven_event_id :: int
  radar_event_id :: int
  camera_event_id :: int
  cipv_event_id :: int
  fusion_event_id :: int
  motion_event_id :: int
  init :: bool
  content :: FrameContent
  event_manager :: EventManager
  radar_object_data :: "SensorObjects SharedData"
  camera_object_data :: "SensorObjects SharedData"
  cipv_object_data :: "SensorObjects SharedData"
  fusion_data :: "FusionItem SharedData"
  camera_shared_data :: "CameraItem SharedData"
  calls :: "Call list"

subsection \<open>InitStream\<close>

text \<open>
  \<^verbatim>\<open>atoi\<close> of the C library: leading white space is skipped, one sign is accepted, the
  decimal digits that follow are read and everything after them is ignored; no digit gives
  0. As in glibc, where \<^verbatim>\<open>atoi\<close> is \<^verbatim>\<open>(int) strtol(s, NULL, 10)\<close>, a value outside the
  64-bit range saturates and the cast keeps the low 32 bits.
\<close>

definition isspace :: "char \<Rightarrow> bool" where
  "isspace c \<longleftrightarrow> (of_char c :: nat) = 32 \<or> (9 \<le> (of_char c :: nat) \<and> (of_char c :: nat) \<le> 13)"

definition isdigit :: "char \<Rightarrow> bool" where
  "isdigit c \<longleftrightarrow> 48 \<le> (of_char c :: nat) \<and> (of_char c :: nat) \<le> 57"

fun read_digits :: "int \<Rightarrow> string \<Rightarrow> int" where
  "read_digits acc [] = acc"
| "read_digits acc (c # cs) =
     (if isdigit c then read_digits (10 * acc + (of_char c - 48)) cs else acc)"

definition strtol :: "string \<Rightarrow> int" where
  "strtol s =
     (let v = (case dropWhile isspace s of
                 [] \<Rightarrow> 0
               | c # cs \<Rightarrow>
                   if c = CHR ''-'' then - read_digits 0 cs
                   else if c = CHR ''+'' then read_digits 0 cs
                   else read_digits 0 (c # cs))
      in max (- (2 ^ 63)) (min (2 ^ 63 - 1) v))"

definition atoi :: "string \<Rightarrow> int" where
  "atoi s = (strtol s + 2 ^ 31) mod 2 ^ 32 - 2 ^ 31"

text \<open>
  \<^verbatim>\<open>SubnodeHelper::ParseReserveField\<close> is not among the sources; it is the parameter
  \<open>parse\<close>, which returns the map of the fields, or \<open>None\<close> when it fails. \<^verbatim>\<open>InitStream\<close>
  returns its boolean with the node, whose members assigned before a failure stay
  assigned.
\<close>

definition InitStream ::
  "(string \<Rightarrow> (string \<rightharpoonup> string) option) \<Rightarrow> VisualizationSubnode \<Rightarrow> bool \<times> VisualizationSubnode"
  where
  "InitStream parse s =
     (case parse (reserve s) of
        None \<Rightarrow> (False, s)
      | Some reserve_field_map \<Rightarrow>
     (case reserve_field_map ''vis_driven_event_id'' of
        None \<Rightarrow> (False, s)
      | Some v \<Rightarrow> let s = s\<lparr>vis_driven_event_id := atoi v\<rparr> in
     (case reserve_field_map ''radar_event_id'' of
        None \<Rightarrow> (False, s)
      | Some v \<Rightarrow> let s = s\<lparr>radar_event_id := atoi v\<rparr> in
     (case reserve_field_map ''camera_event_id'' of
        None \<Rightarrow> (False, s)
      | Some v \<Rightarrow> let s = s\<lparr>camera_event_id := atoi v\<rparr> in
     (case reserve_field_map ''cipv_event_id'' of
        None \<Rightarrow> (False, s)
      | Some v \<Rightarrow> let s = s\<lparr>cipv_event_id := atoi v\<rparr> in
     (case reserve_field_map ''fusion_event_id'' of
        None \<Rightarrow> (False, s)
      | Some v \<Rightarrow> let s = s\<lparr>fusion_event_id := atoi v\<rparr> in
     (case reserve_field_map ''motion_event_id'' of
        None \<Rightarrow> (True, s\<lparr>motion_event_id := - 1\<rparr>)
      | Some v \<Rightarrow> (True, s\<lparr>motion_event_id := atoi v\<rparr>))))))))"

subsection \<open>SubscribeEvents\<close>

text \<open>
  The draining loop \<^verbatim>\<open>while (Subscribe(id, &event, true)) events->push_back(event)\<close>.
  Every successful read shortens the queue, so the loop ends.
\<close>

function drain :: "EventManager \<Rightarrow> int \<Rightarrow> Event \<Rightarrow> Event list \<Rightarrow> Event list \<times> EventManager"
  where
  "drain em eid event events =
     (case Subscribe em eid event True of
        None \<Rightarrow> (events, em)
      | Some (ok, event', em') \<Rightarrow>
          if ok then drain em' eid event' (events @ [event']) else (events, em'))"
  by pat_completeness auto
termination
  by (relation "measure (\<lambda>(em, eid, event, events). case em eid of None \<Rightarrow> 0 | Some q \<Rightarrow> length q)")
     (auto simp: Subscribe_def split: option.splits list.splits if_splits)

declare drain.simps [simp del]

text \<open>
  The result of the blocking read is not looked at (the test of it is commented out in the
  source): the event is pushed and \<^verbatim>\<open>true\<close> returned whatever the read said. \<open>None\<close> is a
  blocking read that never returns.
\<close>

definition SubscribeEvents ::
  "VisualizationSubnode \<Rightarrow> EventMeta \<Rightarrow> Event list \<Rightarrow> (bool \<times> Event list \<times> EventManager) option"
  where
  "SubscribeEvents s event_meta events =
     (let event = Event_init in
      if EventMeta.event_id event_meta = vis_driven_event_id s then
        (case Subscribe (event_manager s) (EventMeta.event_id event_meta) event False of
           None \<Rightarrow> None
         | Some (ok, event', em') \<Rightarrow> Some (True, events @ [event'], em'))
      else
        (case drain (event_manager s) (EventMeta.event_id event_meta) event events of
           (events', em') \<Rightarrow> Some (True, events', em')))"

subsection \<open>GetFrameData\<close>

text \<open>
  Each branch of the chain on the kind of the event gives the content and the lookups it
  made, as \<open>Inl\<close> when it left the function with \<^verbatim>\<open>return;\<close> and as \<open>Inr\<close> when control
  reached the end of the chain.
\<close>

type_synonym branch_result = "(FrameContent \<times> Call list) + (FrameContent \<times> Call list)"

definition camera_branch ::
  "FLAGS \<Rightarrow> VisualizationSubnode \<Rightarrow> string \<Rightarrow> real \<Rightarrow> FrameContent \<Rightarrow> branch_result" where
  "camera_branch F s data_key ts c =
     (if show_camera_objects F \<or> show_camera_objects2d F \<or> show_camera_parsing F then
        (case SharedData_Get (camera_shared_data s) data_key of (ok, camera_item) \<Rightarrow>
           if \<not> ok \<or> camera_item = None then Inl (c, [Get CameraSharedData data_key])
           else
             let img = image_src_mat (the camera_item);
                 c = set_image_content ts img c
             in (case SharedData_Get (camera_object_data s) data_key of (ok, objs) \<Rightarrow>
                   if \<not> ok \<or> objs = None
                   then Inl (c, [Get CameraSharedData data_key, Get CameraObjectData data_key])
                   else Inr (if show_camera_parsing F then c
                             else set_camera_content ts (sensor2world_pose (the objs))
                                    (objects (the objs)) c,
                             [Get CameraSharedData data_key, Get CameraObjectData data_key])))
      else Inr (c, []))"

definition radar_branch ::
  "FLAGS \<Rightarrow> VisualizationSubnode \<Rightarrow> string \<Rightarrow> string \<Rightarrow> real \<Rightarrow> FrameContent \<Rightarrow> branch_result"
  where
  "radar_branch F s device_id data_key ts c =
     (if device_id = ''radar_front'' \<and> show_radar_objects F then
        (case SharedData_Get (radar_object_data s) data_key of (ok, objs) \<Rightarrow>
           if \<not> ok \<or> objs = None then Inl (c, [Get RadarObjectData data_key])
           else Inr (set_radar_content ts (objects (the objs)) c,
                     [Get RadarObjectData data_key]))
      else Inr (c, []))"

definition fusion_branch ::
  "FLAGS \<Rightarrow> VisualizationSubnode \<Rightarrow> string \<Rightarrow> real \<Rightarrow> FrameContent \<Rightarrow> branch_result" where
  "fusion_branch F s data_key ts c =
     (if show_fused_objects F then
        (case SharedData_Get (fusion_data s) data_key of (ok, fusion_item) \<Rightarrow>
           if \<not> ok \<or> fusion_item = None then Inl (c, [Get FusionSharedData data_key])
           else Inr (set_fusion_content ts (obstacles (the fusion_item)) c,
                     [Get FusionSharedData data_key]))
      else Inr (c, []))"

definition cipv_branch ::
  "FLAGS \<Rightarrow> VisualizationSubnode \<Rightarrow> string \<Rightarrow> real \<Rightarrow> FrameContent \<Rightarrow> branch_result" where
  "cipv_branch F s data_key ts c =
     (if show_camera_objects F \<or> show_camera_objects2d F \<or> show_camera_parsing F then
        (case SharedData_Get (camera_shared_data s) data_key of (ok, camera_item) \<Rightarrow>
           if \<not> ok \<or> camera_item = None then Inl (c, [Get CameraSharedData data_key])
           else
             let img = image_src_mat (the camera_item);
                 c = set_image_content ts img c
             in (case SharedData_Get (cipv_object_data s) data_key of (ok, objs) \<Rightarrow>
                   if \<not> ok \<or> objs = None
                   then Inl (c, [Get CameraSharedData data_key, Get CIPVObjectData data_key])
                   else Inr (if show_camera_parsing F then c
                             else set_camera_content ts (sensor2world_pose (the objs))
                                    (objects (the objs)) c,
                             [Get CameraSharedData data_key, Get CIPVObjectData data_key])))
      else Inr (c, []))"

text \<open>
  \<^verbatim>\<open>GetFrameData(event, device_id, data_key, timestamp, content)\<close> returns the content
  and the lookups made. \<open>kind_chain\<close> is its chain of \<^verbatim>\<open>if\<close> and \<^verbatim>\<open>else if\<close> on the
  identifier of the event; the motion branch is empty in the source. The test for the
  driving identifier follows the chain, and a \<^verbatim>\<open>return;\<close> inside the chain leaves before
  it.
\<close>

definition kind_chain ::
  "FLAGS \<Rightarrow> VisualizationSubnode \<Rightarrow> Event \<Rightarrow> string \<Rightarrow> string \<Rightarrow> real \<Rightarrow> FrameContent
     \<Rightarrow> branch_result" where
  "kind_chain F s event device_id data_key ts c =
     (if Event.event_id event = camera_event_id s then camera_branch F s data_key ts c
      else if Event.event_id event = motion_event_id s then Inr (c, [])
      else if Event.event_id event = radar_event_id s
        then radar_branch F s device_id data_key ts c
      else if Event.event_id event = fusion_event_id s then fusion_branch F s data_key ts c
      else if Event.event_id event = cipv_event_id s then cipv_branch F s data_key ts c
      else Inr (c, []))"

definition GetFrameData ::
  "FLAGS \<Rightarrow> VisualizationSubnode \<Rightarrow> Event \<Rightarrow> string \<Rightarrow> string \<Rightarrow> real \<Rightarrow> FrameContent
     \<Rightarrow> FrameContent \<times> Call list" where
  "GetFrameData F s event device_id data_key ts c =
     (case kind_chain F s event device_id data_key ts c of
        Inl returned \<Rightarrow> returned
      | Inr (c, lookups) \<Rightarrow>
          (if Event.event_id event = vis_driven_event_id s then update_timestamp ts c else c,
           lookups))"

subsection \<open>ProcEvents\<close>

text \<open>
  \<^verbatim>\<open>SubnodeHelper::ProduceSharedDataKey\<close> is not among the sources; it is the parameter
  \<open>produce_key\<close>, which gives the key, or \<open>None\<close> when it fails.

  \<open>ProcEvent\<close> is the body of the loop over the events of one kind. A failed key makes
  \<^verbatim>\<open>ProcEvents\<close> return at once, with the node as it is.
\<close>

definition ProcEvent ::
  "FLAGS \<Rightarrow> (real \<Rightarrow> string \<Rightarrow> string option) \<Rightarrow> EventMeta \<Rightarrow> Event \<Rightarrow> VisualizationSubnode
     \<Rightarrow> Status \<times> VisualizationSubnode" where
  "ProcEvent F produce_key event_meta event s =
     (let ts = timestamp event; device_id = Event.reserve event in
      case produce_key ts device_id of
        None \<Rightarrow> (Status PERCEPTION_ERROR ''Failed to proc events.'', s)
      | Some data_key \<Rightarrow>
          (case GetFrameData F s event device_id data_key ts (content s) of (c, lookups) \<Rightarrow>
             let s = s\<lparr>content := c,
                       calls := calls s @ Correlate (EventMeta.event_id event_meta) event # lookups\<rparr>
             in if EventMeta.event_id event_meta = vis_driven_event_id s then
                  let s = (if \<not> init s then s\<lparr>calls := calls s @ [VisInit], init := True\<rparr> else s)
                  in (Status_OK,
                      s\<lparr>calls := calls s @ [VisUpdateCameraSystem (content s), VisRender (content s)]\<rparr>)
                else (Status_OK, s)))"

fun ProcEvents_events ::
  "FLAGS \<Rightarrow> (real \<Rightarrow> string \<Rightarrow> string option) \<Rightarrow> EventMeta \<Rightarrow> Event list \<Rightarrow> VisualizationSubnode
     \<Rightarrow> Status \<times> VisualizationSubnode" where
  "ProcEvents_events F produce_key event_meta [] s = (Status_OK, s)"
| "ProcEvents_events F produce_key event_meta (event # events) s =
     (case ProcEvent F produce_key event_meta event s of (st, s') \<Rightarrow>
        if st = Status_OK then ProcEvents_events F produce_key event_meta events s'
        else (st, s'))"

text \<open>
  The loop over \<^verbatim>\<open>sub_meta_events_\<close>. \<open>None\<close> is a cycle that never returns because its
  blocking read does not.
\<close>

fun ProcEvents_metas ::
  "FLAGS \<Rightarrow> (real \<Rightarrow> string \<Rightarrow> string option) \<Rightarrow> EventMeta list \<Rightarrow> VisualizationSubnode
     \<Rightarrow> (Status \<times> VisualizationSubnode) option" where
  "ProcEvents_metas F produce_key [] s = Some (Status_OK, s)"
| "ProcEvents_metas F produce_key (event_meta # metas) s =
     (case SubscribeEvents s event_meta [] of
        None \<Rightarrow> None
      | Some (ok, events, em') \<Rightarrow>
          let s = s\<lparr>event_manager := em'\<rparr> in
          if \<not> ok then Some (Status PERCEPTION_ERROR ''Failed to proc events.'', s)
          else if events = [] then ProcEvents_metas F produce_key metas s
          else (case ProcEvents_events F produce_key event_meta events s of (st, s') \<Rightarrow>
                  if st = Status_OK then ProcEvents_metas F produce_key metas s'
                  else Some (st, s')))"

definition ProcEvents ::
  "FLAGS \<Rightarrow> (real \<Rightarrow> string \<Rightarrow> string option) \<Rightarrow> VisualizationSubnode
     \<Rightarrow> (Status \<times> VisualizationSubnode) option" where
  "ProcEvents F produce_key s = ProcEvents_metas F produce_key (sub_meta_events s) s"


subsection \<open>Cycle after cycle\<close>

text \<open>
  Modelled from the spec: the orchestrator that calls \<^verbatim>\<open>ProcEvents\<close> once per cycle is
  not among the sources; the spec has it own the retry policy, so a failed cycle is
  followed by the next one. Between two cycles the producers fill the bus and the stores:
  \<open>Inputs\<close> is what the node finds at the start of a cycle, and \<open>install\<close> puts it behind
  the pointer members without touching any other member. \<open>None\<close> is a run whose blocking
  read never returns.
\<close>

record Inputs =
  in_event_manager :: EventManager
  in_radar_object_data :: "SensorObjects SharedData"
  in_camera_object_data :: "SensorObjects SharedData"
  in_cipv_object_data :: "SensorObjects SharedData"
  in_fusion_data :: "FusionItem SharedData"
  in_camera_shared_data :: "CameraItem SharedData"

definition install :: "Inputs \<Rightarrow> VisualizationSubnode \<Rightarrow> VisualizationSubnode" where
  "install i s = s\<lparr>event_manager := in_event_manager i,
     radar_object_data := in_radar_object_data i,
     camera_object_data := in_camera_object_data i,
     cipv_object_data := in_cipv_object_data i,
     fusion_data := in_fusion_data i,
     camera_shared_data := in_camera_shared_data i\<rparr>"

fun run_cycles ::
  "FLAGS \<Rightarrow> (real \<Rightarrow> string \<Rightarrow> string option) \<Rightarrow> Inputs list \<Rightarrow> VisualizationSubnode
     \<Rightarrow> VisualizationSubnode option" where
  "run_cycles F produce_key [] s = Some s"
| "run_cycles F produce_key (i # inputs) s =
     (case ProcEvents F produce_key (install i s) of
        None \<Rightarrow> None
      | Some (st, s') \<Rightarrow> run_cycles F produce_key inputs s')"

subsection \<open>Vocabulary of the properties\<close>

text \<open>
  A value is non-numeric when no decimal digit follows its leading white space and its
  optional sign.
\<close>

definition non_numeric :: "string \<Rightarrow> bool" where
  "non_numeric v =
     (case dropWhile isspace v of
        [] \<Rightarrow> True
      | c # cs \<Rightarrow>
          if c = CHR ''-'' \<or> c = CHR ''+'' then (case cs of [] \<Rightarrow> True | d # _ \<Rightarrow> \<not> isdigit d)
          else \<not> isdigit c)"

text \<open>
  Whether a store holds a payload (a non-null pointer) under a key, whether a recorded
  lookup found one, and whether a recorded call is a lookup in a given store.
\<close>

definition payload_present :: "VisualizationSubnode \<Rightarrow> StoreName \<Rightarrow> string \<Rightarrow> bool" where
  "payload_present s store key =
     (case store of
        CameraSharedData \<Rightarrow> (case camera_shared_data s key of Some (Some _) \<Rightarrow> True | _ \<Rightarrow> False)
      | CameraObjectData \<Rightarrow> (case camera_object_data s key of Some (Some _) \<Rightarrow> True | _ \<Rightarrow> False)
      | CIPVObjectData \<Rightarrow> (case cipv_object_data s key of Some (Some _) \<Rightarrow> True | _ \<Rightarrow> False)
      | RadarObjectData \<Rightarrow> (case radar_object_data s key of Some (Some _) \<Rightarrow> True | _ \<Rightarrow> False)
      | FusionSharedData \<Rightarrow> (case fusion_data s key of Some (Some _) \<Rightarrow> True | _ \<Rightarrow> False))"

fun lookup_found :: "VisualizationSubnode \<Rightarrow> Call \<Rightarrow> bool" where
  "lookup_found s (Get store key) = payload_present s store key"
| "lookup_found s _ = True"

fun is_lookup_of :: "StoreName \<Rightarrow> Call \<Rightarrow> bool" where
  "is_lookup_of store (Get store' key) = (store' = store)"
| "is_lookup_of store _ = False"

text \<open>The condition under which the camera and the cipv branch do anything.\<close>

definition camera_toggles :: "FLAGS \<Rightarrow> bool" where
  "camera_toggles F \<longleftrightarrow> show_camera_objects F \<or> show_camera_objects2d F \<or> show_camera_parsing F"

text \<open>The content and the lookups of a branch, however it was left.\<close>

definition outcome :: "branch_result \<Rightarrow> FrameContent \<times> Call list" where
  "outcome r = (case r of Inl x \<Rightarrow> x | Inr x \<Rightarrow> x)"

text \<open>
  Kinds of recorded calls: a render, a call that hands the content to the visualizer, and
  the correlation of an event subscribed under a given identifier. \<open>before_init\<close> is the
  part of a record of calls that precedes the first \<^verbatim>\<open>init()\<close> of the visualizer.
\<close>

fun is_render :: "Call \<Rightarrow> bool" where
  "is_render (VisRender c) = True"
| "is_render _ = False"

fun uses_visualizer :: "Call \<Rightarrow> bool" where
  "uses_visualizer (VisRender c) = True"
| "uses_visualizer (VisUpdateCameraSystem c) = True"
| "uses_visualizer _ = False"

fun is_correlate_of :: "int \<Rightarrow> Call \<Rightarrow> bool" where
  "is_correlate_of eid (Correlate eid' event) = (eid' = eid)"
| "is_correlate_of eid _ = False"

definition before_init :: "Call list \<Rightarrow> Call list" where
  "before_init cs = takeWhile (\<lambda>x. x \<noteq> VisInit) cs"

text \<open>
  The pacing of the renders in a record of calls, read from left to right with a flag that
  says whether the correlation of a driving event still waits for its render: a
  correlation may start only when none waits, a render may happen only when one waits and
  answers it, and at the end none waits. So each render follows the correlation of a
  driving event with no other correlation and no other render between the two, and each
  correlation of a driving event has its render before the next correlation.
\<close>

fun well_paced :: "int \<Rightarrow> bool \<Rightarrow> Call list \<Rightarrow> bool" where
  "well_paced d waiting [] = (\<not> waiting)"
| "well_paced d waiting (Correlate eid event # cs) = (\<not> waiting \<and> well_paced d (eid = d) cs)"
| "well_paced d waiting (VisRender c # cs) = (waiting \<and> well_paced d False cs)"
| "well_paced d waiting (Get store key # cs) = well_paced d waiting cs"
| "well_paced d waiting (VisInit # cs) = well_paced d waiting cs"
| "well_paced d waiting (VisUpdateCameraSystem c # cs) = well_paced d waiting cs"

text \<open>
  The state of the lazy initialisation, for the driving identifier \<open>d\<close>: once \<open>init\<close> is
  set, \<^verbatim>\<open>init()\<close> has been called once, after the correlation of a driving event and
  before any use of the visualizer; until then there is no call to the visualizer and no
  correlation of a driving event.
\<close>

definition init_once :: "int \<Rightarrow> VisualizationSubnode \<Rightarrow> bool" where
  "init_once d s =
     (if init s then
        count_list (calls s) VisInit = 1 \<and>
        list_ex (is_correlate_of d) (before_init (calls s)) \<and>
        \<not> list_ex uses_visualizer (before_init (calls s))
      else \<not> list_ex (\<lambda>x. x = VisInit \<or> uses_visualizer x \<or> is_correlate_of d x) (calls s))"

text \<open>
  The relation between the node before and after some steps that keeps the state of the
  lazy initialisation and the driving identifier.
\<close>

definition initialised_once :: "VisualizationSubnode \<Rightarrow> VisualizationSubnode \<Rightarrow> bool" where
  "initialised_once s s' \<longleftrightarrow> vis_driven_event_id s' = vis_driven_event_id s \<and>
     (init_once (vis_driven_event_id s) s \<longrightarrow> init_once (vis_driven_event_id s) s')"

text \<open>
  What a cycle does, read off the bus and the record of calls. An event has its key
  derived when \<open>produce_key\<close> gives one for it. \<open>taken\<close> lists the events that the
  subscriptions of a cycle hand over, each with the identifier it was subscribed under,
  kind after kind until a kind has an event without a key; it is \<open>None\<close> when a blocking
  read never returns. \<open>correlated\<close> and \<open>rendered\<close> list the correlations and the
  contents rendered in a record of calls. \<open>correlate\<close> is the snapshot after one event,
  \<open>snapshot_after\<close> the snapshot after a list of events, and \<open>snapshots_rendered\<close> the
  snapshots to render for a list of events: for each event subscribed under the driving
  identifier, the snapshot right after that event. \<open>same_env\<close> says that two nodes have
  the same identifiers and stores, and \<open>dispatched\<close> that a node has gone from one state
  to another by correlating and rendering a list of events in this way.
\<close>

definition key_derived :: "(real \<Rightarrow> string \<Rightarrow> string option) \<Rightarrow> int \<times> Event \<Rightarrow> bool" where
  "key_derived produce_key me \<longleftrightarrow>
     produce_key (timestamp (snd me)) (Event.reserve (snd me)) \<noteq> None"

fun taken ::
  "(real \<Rightarrow> string \<Rightarrow> string option) \<Rightarrow> VisualizationSubnode \<Rightarrow> EventMeta list
     \<Rightarrow> (int \<times> Event) list option" where
  "taken produce_key s [] = Some []"
| "taken produce_key s (event_meta # metas) =
     (case SubscribeEvents s event_meta [] of
        None \<Rightarrow> None
      | Some (ok, events, em') \<Rightarrow>
          let here = map (Pair (EventMeta.event_id event_meta)) events in
          if list_all (key_derived produce_key) here
          then map_option ((@) here) (taken produce_key (s\<lparr>event_manager := em'\<rparr>) metas)
          else Some here)"

fun correlated :: "Call list \<Rightarrow> (int \<times> Event) list" where
  "correlated [] = []"
| "correlated (Correlate eid event # cs) = (eid, event) # correlated cs"
| "correlated (Get store key # cs) = correlated cs"
| "correlated (VisInit # cs) = correlated cs"
| "correlated (VisUpdateCameraSystem c # cs) = correlated cs"
| "correlated (VisRender c # cs) = correlated cs"

fun rendered :: "Call list \<Rightarrow> FrameContent list" where
  "rendered [] = []"
| "rendered (VisRender c # cs) = c # rendered cs"
| "rendered (Correlate eid event # cs) = rendered cs"
| "rendered (Get store key # cs) = rendered cs"
| "rendered (VisInit # cs) = rendered cs"
| "rendered (VisUpdateCameraSystem c # cs) = rendered cs"

definition correlate ::
  "FLAGS \<Rightarrow> (real \<Rightarrow> string \<Rightarrow> string option) \<Rightarrow> VisualizationSubnode \<Rightarrow> Event \<Rightarrow> FrameContent
     \<Rightarrow> FrameContent" where
  "correlate F produce_key s event c =
     (case produce_key (timestamp event) (Event.reserve event) of
        None \<Rightarrow> c
      | Some data_key \<Rightarrow>
          fst (GetFrameData F s event (Event.reserve event) data_key (timestamp event) c))"

fun snapshot_after ::
  "FLAGS \<Rightarrow> (real \<Rightarrow> string \<Rightarrow> string option) \<Rightarrow> VisualizationSubnode \<Rightarrow> FrameContent
     \<Rightarrow> (int \<times> Event) list \<Rightarrow> FrameContent" where
  "snapshot_after F produce_key s c [] = c"
| "snapshot_after F produce_key s c ((eid, event) # es) =
     snapshot_after F produce_key s (correlate F produce_key s event c) es"

fun snapshots_rendered ::
  "FLAGS \<Rightarrow> (real \<Rightarrow> string \<Rightarrow> string option) \<Rightarrow> VisualizationSubnode \<Rightarrow> FrameContent
     \<Rightarrow> (int \<times> Event) list \<Rightarrow> FrameContent list" where
  "snapshots_rendered F produce_key s c [] = []"
| "snapshots_rendered F produce_key s c ((eid, event) # es) =
     (if eid = vis_driven_event_id s then [correlate F produce_key s event c] else []) @
     snapshots_rendered F produce_key s (correlate F produce_key s event c) es"

definition same_env :: "VisualizationSubnode \<Rightarrow> VisualizationSubnode \<Rightarrow> bool" where
  "same_env s s' \<longleftrightarrow>
     vis_driven_event_id s' = vis_driven_event_id s \<and> radar_event_id s' = radar_event_id s \<and>
     camera_event_id s' = camera_event_id s \<and> cipv_event_id s' = cipv_event_id s \<and>
     fusion_event_id s' = fusion_event_id s \<and> motion_event_id s' = motion_event_id s \<and>
     radar_object_data s' = radar_object_data s \<and>
     camera_object_data s' = camera_object_data s \<and>
     cipv_object_data s' = cipv_object_data s \<and> fusion_data s' = fusion_data s \<and>
     camera_shared_data s' = camera_shared_data s"

definition dispatched ::
  "FLAGS \<Rightarrow> (real \<Rightarrow> string \<Rightarrow> string option) \<Rightarrow> VisualizationSubnode \<Rightarrow> (int \<times> Event) list
     \<Rightarrow> VisualizationSubnode \<Rightarrow> bool" where
  "dispatched F produce_key s es s' \<longleftrightarrow>
     same_env s s' \<and>
     content s' = snapshot_after F produce_key s (content s) es \<and>
     (\<exists>new. calls s' = calls s @ new \<and> correlated new = es \<and>
        rendered new = snapshots_rendered F produce_key s (content s) es \<and>
        well_paced (vis_driven_event_id s) False new)"

subsection \<open>Concrete inputs\<close>

definition FrameContent_empty :: FrameContent where
  "FrameContent_empty = \<lparr>image_content = None, camera_content = None, radar_content = None,
     fusion_content = None, frame_timestamp = 0\<rparr>"

text \<open>A node before \<^verbatim>\<open>InitStream\<close>, with empty stores and a bus without queues.\<close>

definition node_fresh :: VisualizationSubnode where
  "node_fresh = \<lparr>reserve = '''', sub_meta_events = [], vis_driven_event_id = 0,
     radar_event_id = 0, camera_event_id = 0, cipv_event_id = 0, fusion_event_id = 0,
     motion_event_id = 0, init = False, content = FrameContent_empty,
     event_manager = Map.empty, radar_object_data = Map.empty, camera_object_data = Map.empty,
     cipv_object_data = Map.empty, fusion_data = Map.empty, camera_shared_data = Map.empty,
     calls = []\<rparr>"

definition fields_no_motion :: "string \<rightharpoonup> string" where
  "fields_no_motion = map_of [(''vis_driven_event_id'', ''1009''), (''radar_event_id'', ''1005''),
     (''camera_event_id'', ''1008''), (''cipv_event_id'', ''1011''), (''fusion_event_id'', ''1009'')]"

definition fields_malformed :: "string \<rightharpoonup> string" where
  "fields_malformed = map_of [(''vis_driven_event_id'', ''1009''), (''radar_event_id'', ''abc''),
     (''camera_event_id'', ''1008''), (''cipv_event_id'', ''1011''), (''fusion_event_id'', ''1009''),
     (''motion_event_id'', ''1012'')]"

definition flags_on :: FLAGS where
  "flags_on = \<lparr>show_radar_objects = True, show_camera_objects = True,
     show_camera_objects2d = True, show_camera_parsing = False, show_fused_objects = True\<rparr>"

definition flags_off :: FLAGS where
  "flags_off = \<lparr>show_radar_objects = False, show_camera_objects = False,
     show_camera_objects2d = False, show_camera_parsing = False, show_fused_objects = False\<rparr>"

text \<open>
  A key function that fails on the device label \<^verbatim>\<open>bad\<close> and otherwise gives the label
  as the key.
\<close>

definition key_of :: "real \<Rightarrow> string \<Rightarrow> string option" where
  "key_of ts device_id = (if device_id = ''bad'' then None else Some device_id)"

text \<open>
  A node after initialisation, subscribed to the radar kind and to the driving kind, which
  shares its identifier with the fusion kind. The image store, the radar store and the
  fusion store hold one payload each; the two detection stores of the camera are empty.
\<close>

definition node_ready :: VisualizationSubnode where
  "node_ready = node_fresh\<lparr>
     sub_meta_events := [\<lparr>EventMeta.event_id = 1005\<rparr>, \<lparr>EventMeta.event_id = 1009\<rparr>],
     vis_driven_event_id := 1009, radar_event_id := 1005, camera_event_id := 1008,
     cipv_event_id := 1011, fusion_event_id := 1009, motion_event_id := - 1,
     camera_shared_data := [''camera'' \<mapsto> Some \<lparr>image_src_mat = Mat 1\<rparr>],
     radar_object_data := [''radar_front'' \<mapsto>
        Some \<lparr>objects = [VisualObject 1], sensor2world_pose = Matrix4d 0, cipv_index = 0\<rparr>],
     fusion_data := [''fusion'' \<mapsto> Some \<lparr>obstacles = [VisualObject 2]\<rparr>]\<rparr>"

definition radar_event :: "string \<Rightarrow> Event" where
  "radar_event device_id = \<lparr>Event.event_id = 1005, timestamp = 5, reserve = device_id\<rparr>"

definition camera_event :: Event where
  "camera_event = \<lparr>Event.event_id = 1008, timestamp = 5, reserve = ''camera''\<rparr>"

definition driving_event :: "real \<Rightarrow> string \<Rightarrow> Event" where
  "driving_event ts device_id = \<lparr>Event.event_id = 1009, timestamp = ts, reserve = device_id\<rparr>"

text \<open>
  A bus with one radar event and one driving event, and a bus whose second radar event has
  the device label on which \<open>key_of\<close> fails.
\<close>

definition bus_ok :: EventManager where
  "bus_ok = [1005 \<mapsto> [radar_event ''radar_front''], 1009 \<mapsto> [driving_event 5 ''fusion'']]"

definition bus_bad :: EventManager where
  "bus_bad = [1005 \<mapsto> [radar_event ''radar_front'', radar_event ''bad'', radar_event ''radar_front''],
              1009 \<mapsto> [driving_event 5 ''fusion'']]"

text \<open>What a cycle finds: the stores of \<open>node_ready\<close> and a given bus.\<close>

definition inputs_with :: "EventManager \<Rightarrow> Inputs" where
  "inputs_with em = \<lparr>in_event_manager = em,
     in_radar_object_data = radar_object_data node_ready,
     in_camera_object_data = camera_object_data node_ready,
     in_cipv_object_data = cipv_object_data node_ready,
     in_fusion_data = fusion_data node_ready,
     in_camera_shared_data = camera_shared_data node_ready\<rparr>"

text \<open>
  A bus whose one driving event has the device label on which \<open>key_of\<close> fails, and a node
  subscribed to the camera kind and to the driving kind, with one event of each on its
  bus.
\<close>

definition bus_bad_driving :: EventManager where
  "bus_bad_driving = [1005 \<mapsto> [], 1009 \<mapsto> [driving_event 5 ''bad'']]"

definition node_camera :: VisualizationSubnode where
  "node_camera = node_ready\<lparr>
     sub_meta_events := [\<lparr>EventMeta.event_id = 1008\<rparr>, \<lparr>EventMeta.event_id = 1009\<rparr>],
     event_manager := [1008 \<mapsto> [camera_event], 1009 \<mapsto> [driving_event 5 ''fusion'']]\<rparr>"

section \<open>Properties\<close>

subsection \<open>Stream initialisation\<close>

lemma read_digits_no_digit:
  "(case cs of [] \<Rightarrow> True | d # _ \<Rightarrow> \<not> isdigit d) \<Longrightarrow> read_digits 0 cs = 0"
  by (cases cs) simp_all

lemma strtol_non_numeric: "non_numeric v \<Longrightarrow> strtol v = 0"
proof (cases "dropWhile isspace v")
  case Nil
  show ?thesis unfolding strtol_def Nil by simp
next
  case (Cons c cs)
  assume "non_numeric v"
  then show ?thesis unfolding strtol_def non_numeric_def Cons
    by (auto simp: read_digits_no_digit split: if_splits)
qed

lemma atoi_non_numeric: "non_numeric v \<Longrightarrow> atoi v = 0"
  by (simp add: atoi_def strtol_non_numeric)

text \<open>
  C5. Once the reserve string is parsed, \<^verbatim>\<open>InitStream\<close> succeeds exactly when the map
  has the five required identifiers (driving, radar, camera, cipv, fusion); when it
  succeeds and the motion identifier is missing, the motion identifier is -1.
\<close>

theorem InitStream_required_ids:
  "parse (reserve s) = Some m \<Longrightarrow>
   (fst (InitStream parse s) \<longleftrightarrow>
      {''vis_driven_event_id'', ''radar_event_id'', ''camera_event_id'', ''cipv_event_id'',
       ''fusion_event_id''} \<subseteq> dom m) \<and>
   (fst (InitStream parse s) \<longrightarrow> m ''motion_event_id'' = None \<longrightarrow>
      motion_event_id (snd (InitStream parse s)) = - 1)"
  by (auto simp: InitStream_def Let_def split: option.splits)

theorem InitStream_required_ids_witness:
  "(\<lambda>r. Some fields_no_motion) (reserve node_fresh) = Some fields_no_motion \<and>
   fst (InitStream (\<lambda>r. Some fields_no_motion) node_fresh) \<and>
   fields_no_motion ''motion_event_id'' = None \<and>
   motion_event_id (snd (InitStream (\<lambda>r. Some fields_no_motion) node_fresh)) = - 1"
  using InitStream_required_ids [of "\<lambda>r. Some fields_no_motion" node_fresh fields_no_motion]
  by (simp add: fields_no_motion_def)

text \<open>
  C10. With the five required identifiers present, \<^verbatim>\<open>InitStream\<close> succeeds whatever
  their values are: each identifier is \<^verbatim>\<open>atoi\<close> of its value, the motion identifier too
  when it is present, and a non-numeric value such as \<^verbatim>\<open>abc\<close> gives the identifier 0
  without any error.
\<close>

theorem InitStream_atoi:
  "parse (reserve s) = Some m \<Longrightarrow>
   m ''vis_driven_event_id'' = Some v1 \<Longrightarrow> m ''radar_event_id'' = Some v2 \<Longrightarrow>
   m ''camera_event_id'' = Some v3 \<Longrightarrow> m ''cipv_event_id'' = Some v4 \<Longrightarrow>
   m ''fusion_event_id'' = Some v5 \<Longrightarrow>
   InitStream parse s =
     (True, s\<lparr>vis_driven_event_id := atoi v1, radar_event_id := atoi v2,
              camera_event_id := atoi v3, cipv_event_id := atoi v4, fusion_event_id := atoi v5,
              motion_event_id := (case m ''motion_event_id'' of None \<Rightarrow> - 1 | Some v \<Rightarrow> atoi v)\<rparr>) \<and>
   (\<forall>v \<in> {v1, v2, v3, v4, v5} \<union> set_option (m ''motion_event_id'').
      non_numeric v \<longrightarrow> atoi v = 0)"
  by (auto simp: InitStream_def Let_def atoi_non_numeric split: option.splits)

theorem InitStream_atoi_witness:
  "fields_malformed ''radar_event_id'' = Some ''abc'' \<and> non_numeric ''abc'' \<and> atoi ''abc'' = 0 \<and>
   fst (InitStream (\<lambda>r. Some fields_malformed) node_fresh) \<and>
   radar_event_id (snd (InitStream (\<lambda>r. Some fields_malformed) node_fresh)) = 0"
  using InitStream_atoi [of "\<lambda>r. Some fields_malformed" node_fresh fields_malformed
      "''1009''" "''abc''" "''1008''" "''1011''" "''1009''"]
  by (simp add: fields_malformed_def non_numeric_def isspace_def isdigit_def)

subsection \<open>The branches of the correlator\<close>

lemma payload_present_iff:
  "payload_present s CameraSharedData k \<longleftrightarrow> (\<exists>item. camera_shared_data s k = Some (Some item))"
  "payload_present s CameraObjectData k \<longleftrightarrow> (\<exists>item. camera_object_data s k = Some (Some item))"
  "payload_present s CIPVObjectData k \<longleftrightarrow> (\<exists>item. cipv_object_data s k = Some (Some item))"
  "payload_present s RadarObjectData k \<longleftrightarrow> (\<exists>item. radar_object_data s k = Some (Some item))"
  "payload_present s FusionSharedData k \<longleftrightarrow> (\<exists>item. fusion_data s k = Some (Some item))"
  by (simp_all add: payload_present_def split: option.splits)

lemma store_cases:
  obtains
    (missing) "\<nexists>item. d k = Some (Some item)"
      "SharedData_Get d k = (False, None) \<or> SharedData_Get d k = (True, None)"
  | (found) item where "d k = Some (Some item)" "SharedData_Get d k = (True, Some item)"
  by (cases "d k") (auto simp: SharedData_Get_def)

lemma radar_branch_cases:
  obtains
    (off) "\<not> (device_id = ''radar_front'' \<and> show_radar_objects F)"
      "radar_branch F s device_id k ts c = Inr (c, [])"
  | (no_objs) "device_id = ''radar_front''" "show_radar_objects F"
      "\<not> payload_present s RadarObjectData k"
      "radar_branch F s device_id k ts c = Inl (c, [Get RadarObjectData k])"
  | (complete) objs where "device_id = ''radar_front''" "show_radar_objects F"
      "radar_object_data s k = Some (Some objs)"
      "radar_branch F s device_id k ts c =
         Inr (c\<lparr>radar_content := Some (ts, objects objs)\<rparr>, [Get RadarObjectData k])"
proof (cases "device_id = ''radar_front'' \<and> show_radar_objects F")
  case False
  then have "radar_branch F s device_id k ts c = Inr (c, [])"
    by (auto simp: radar_branch_def)
  with False show ?thesis using off by blast
next
  case on: True
  show ?thesis
  proof (cases rule: store_cases [of "radar_object_data s" k])
    case missing
    from missing(2) on have "radar_branch F s device_id k ts c = Inl (c, [Get RadarObjectData k])"
      by (auto simp: radar_branch_def)
    with missing(1) on show ?thesis using no_objs by (simp add: payload_present_iff)
  next
    case (found objs)
    with on have "radar_branch F s device_id k ts c =
        Inr (c\<lparr>radar_content := Some (ts, objects objs)\<rparr>, [Get RadarObjectData k])"
      by (simp add: radar_branch_def set_radar_content_def)
    with found on show ?thesis using complete by simp
  qed
qed

lemma fusion_branch_cases:
  obtains
    (off) "\<not> show_fused_objects F" "fusion_branch F s k ts c = Inr (c, [])"
  | (no_item) "show_fused_objects F" "\<not> payload_present s FusionSharedData k"
      "fusion_branch F s k ts c = Inl (c, [Get FusionSharedData k])"
  | (complete) item where "show_fused_objects F" "fusion_data s k = Some (Some item)"
      "fusion_branch F s k ts c =
         Inr (c\<lparr>fusion_content := Some (ts, obstacles item)\<rparr>, [Get FusionSharedData k])"
proof (cases "show_fused_objects F")
  case False
  then show ?thesis using off by (simp add: fusion_branch_def)
next
  case on: True
  show ?thesis
  proof (cases rule: store_cases [of "fusion_data s" k])
    case missing
    from missing(2) on have "fusion_branch F s k ts c = Inl (c, [Get FusionSharedData k])"
      by (auto simp: fusion_branch_def)
    with missing(1) on show ?thesis using no_item by (simp add: payload_present_iff)
  next
    case (found item)
    with on have "fusion_branch F s k ts c =
        Inr (c\<lparr>fusion_content := Some (ts, obstacles item)\<rparr>, [Get FusionSharedData k])"
      by (simp add: fusion_branch_def set_fusion_content_def)
    with found on show ?thesis using complete by simp
  qed
qed

lemma camera_branch_cases:
  obtains
    (off) "\<not> camera_toggles F" "camera_branch F s k ts c = Inr (c, [])"
  | (no_image) "camera_toggles F" "\<not> payload_present s CameraSharedData k"
      "camera_branch F s k ts c = Inl (c, [Get CameraSharedData k])"
  | (no_objs) item where "camera_toggles F" "camera_shared_data s k = Some (Some item)"
      "\<not> payload_present s CameraObjectData k"
      "camera_branch F s k ts c =
         Inl (c\<lparr>image_content := Some (ts, image_src_mat item)\<rparr>,
              [Get CameraSharedData k, Get CameraObjectData k])"
  | (complete) item objs where "camera_toggles F" "camera_shared_data s k = Some (Some item)"
      "camera_object_data s k = Some (Some objs)"
      "camera_branch F s k ts c =
         Inr (if show_camera_parsing F then c\<lparr>image_content := Some (ts, image_src_mat item)\<rparr>
              else c\<lparr>image_content := Some (ts, image_src_mat item),
                     camera_content := Some (ts, sensor2world_pose objs, objects objs)\<rparr>,
              [Get CameraSharedData k, Get CameraObjectData k])"
proof (cases "camera_toggles F")
  case False
  then show ?thesis using off by (simp add: camera_branch_def camera_toggles_def)
next
  case on: True
  then have on': "show_camera_objects F \<or> show_camera_objects2d F \<or> show_camera_parsing F"
    by (simp add: camera_toggles_def)
  show ?thesis
  proof (cases rule: store_cases [of "camera_shared_data s" k])
    case missing
    from missing(2) on' have "camera_branch F s k ts c = Inl (c, [Get CameraSharedData k])"
      by (auto simp: camera_branch_def)
    with missing(1) on show ?thesis using no_image by (simp add: payload_present_iff)
  next
    case img: (found item)
    show ?thesis
    proof (cases rule: store_cases [of "camera_object_data s" k])
      case missing
      from missing(2) img(2) on' have "camera_branch F s k ts c =
          Inl (c\<lparr>image_content := Some (ts, image_src_mat item)\<rparr>,
               [Get CameraSharedData k, Get CameraObjectData k])"
        by (auto simp: camera_branch_def set_image_content_def)
      with missing(1) img(1) on show ?thesis using no_objs by (simp add: payload_present_iff)
    next
      case (found objs)
      with img(2) on' have "camera_branch F s k ts c =
          Inr (if show_camera_parsing F then c\<lparr>image_content := Some (ts, image_src_mat item)\<rparr>
               else c\<lparr>image_content := Some (ts, image_src_mat item),
                      camera_content := Some (ts, sensor2world_pose objs, objects objs)\<rparr>,
               [Get CameraSharedData k, Get CameraObjectData k])"
        by (simp add: camera_branch_def set_image_content_def set_camera_content_def)
      with found(1) img(1) on show ?thesis using complete by simp
    qed
  qed
qed

lemma cipv_branch_cases:
  obtains
    (off) "\<not> camera_toggles F" "cipv_branch F s k ts c = Inr (c, [])"
  | (no_image) "camera_toggles F" "\<not> payload_present s CameraSharedData k"
      "cipv_branch F s k ts c = Inl (c, [Get CameraSharedData k])"
  | (no_objs) item where "camera_toggles F" "camera_shared_data s k = Some (Some item)"
      "\<not> payload_present s CIPVObjectData k"
      "cipv_branch F s k ts c =
         Inl (c\<lparr>image_content := Some (ts, image_src_mat item)\<rparr>,
              [Get CameraSharedData k, Get CIPVObjectData k])"
  | (complete) item objs where "camera_toggles F" "camera_shared_data s k = Some (Some item)"
      "cipv_object_data s k = Some (Some objs)"
      "cipv_branch F s k ts c =
         Inr (if show_camera_parsing F then c\<lparr>image_content := Some (ts, image_src_mat item)\<rparr>
              else c\<lparr>image_content := Some (ts, image_src_mat item),
                     camera_content := Some (ts, sensor2world_pose objs, objects objs)\<rparr>,
              [Get CameraSharedData k, Get CIPVObjectData k])"
proof (cases "camera_toggles F")
  case False
  then show ?thesis using off by (simp add: cipv_branch_def camera_toggles_def)
next
  case on: True
  then have on': "show_camera_objects F \<or> show_camera_objects2d F \<or> show_camera_parsing F"
    by (simp add: camera_toggles_def)
  show ?thesis
  proof (cases rule: store_cases [of "camera_shared_data s" k])
    case missing
    from missing(2) on' have "cipv_branch F s k ts c = Inl (c, [Get CameraSharedData k])"
      by (auto simp: cipv_branch_def)
    with missing(1) on show ?thesis using no_image by (simp add: payload_present_iff)
  next
    case img: (found item)
    show ?thesis
    proof (cases rule: store_cases [of "cipv_object_data s" k])
      case missing
      from missing(2) img(2) on' have "cipv_branch F s k ts c =
          Inl (c\<lparr>image_content := Some (ts, image_src_mat item)\<rparr>,
               [Get CameraSharedData k, Get CIPVObjectData k])"
        by (auto simp: cipv_branch_def set_image_content_def)
      with missing(1) img(1) on show ?thesis using no_objs by (simp add: payload_present_iff)
    next
      case (found objs)
      with img(2) on' have "cipv_branch F s k ts c =
          Inr (if show_camera_parsing F then c\<lparr>image_content := Some (ts, image_src_mat item)\<rparr>
               else c\<lparr>image_content := Some (ts, image_src_mat item),
                      camera_content := Some (ts, sensor2world_pose objs, objects objs)\<rparr>,
               [Get CameraSharedData k, Get CIPVObjectData k])"
        by (simp add: cipv_branch_def set_image_content_def set_camera_content_def)
      with found(1) img(1) on show ?thesis using complete by simp
    qed
  qed
qed


lemma outcome_simps [simp]: "outcome (Inl x) = x" "outcome (Inr x) = x"
  by (simp_all add: outcome_def)

lemma kind_chain_cases:
  assumes "P (camera_branch F s k ts c)" and "P (radar_branch F s d k ts c)"
    and "P (fusion_branch F s k ts c)" and "P (cipv_branch F s k ts c)" and "P (Inr (c, []))"
  shows "P (kind_chain F s e d k ts c)"
  unfolding kind_chain_def using assms by simp

lemma GetFrameData_lookups:
  "snd (GetFrameData F s e d k ts c) = snd (outcome (kind_chain F s e d k ts c))"
  by (simp add: GetFrameData_def split: sum.splits prod.splits)

lemma GetFrameData_content:
  "fst (GetFrameData F s e d k ts c) =
     (let r = kind_chain F s e d k ts c in
      if isl r \<or> Event.event_id e \<noteq> vis_driven_event_id s then fst (outcome r)
      else update_timestamp ts (fst (outcome r)))"
  by (simp add: GetFrameData_def Let_def split: sum.splits prod.splits)

lemma GetFrameData_fields:
  "image_content (fst (GetFrameData F s e d k ts c)) = image_content (fst (outcome (kind_chain F s e d k ts c)))"
  "camera_content (fst (GetFrameData F s e d k ts c)) = camera_content (fst (outcome (kind_chain F s e d k ts c)))"
  "radar_content (fst (GetFrameData F s e d k ts c)) = radar_content (fst (outcome (kind_chain F s e d k ts c)))"
  "fusion_content (fst (GetFrameData F s e d k ts c)) = fusion_content (fst (outcome (kind_chain F s e d k ts c)))"
  by (simp_all add: GetFrameData_content Let_def update_timestamp_def)

lemma kind_chain_radar:
  "\<not> (show_radar_objects F \<and> d = ''radar_front'') \<Longrightarrow>
   radar_content (fst (outcome (kind_chain F s e d k ts c))) = radar_content c \<and>
   \<not> list_ex (is_lookup_of RadarObjectData) (snd (outcome (kind_chain F s e d k ts c)))"
proof (rule kind_chain_cases, goal_cases)
  case 1 then show ?case by (cases rule: camera_branch_cases [of F s k ts c]) auto
next
  case 2 then show ?case by (cases rule: radar_branch_cases [of d F s k ts c]) auto
next
  case 3 then show ?case by (cases rule: fusion_branch_cases [of F s k ts c]) auto
next
  case 4 then show ?case by (cases rule: cipv_branch_cases [of F s k ts c]) auto
next
  case 5 then show ?case by simp
qed

lemma kind_chain_radar_written:
  "Event.event_id e = radar_event_id s \<Longrightarrow> radar_event_id s \<noteq> camera_event_id s \<Longrightarrow>
   radar_event_id s \<noteq> motion_event_id s \<Longrightarrow> show_radar_objects F \<Longrightarrow>
   radar_object_data s k = Some (Some objs) \<Longrightarrow>
   radar_content (fst (outcome (kind_chain F s e ''radar_front'' k ts c))) = Some (ts, objects objs)"
  by (cases rule: radar_branch_cases [of "''radar_front''" F s k ts c])
     (auto simp: kind_chain_def payload_present_iff)

lemma kind_chain_toggles:
  "(\<not> show_radar_objects F \<longrightarrow>
      \<not> list_ex (is_lookup_of RadarObjectData) (snd (outcome (kind_chain F s e d k ts c))) \<and>
      radar_content (fst (outcome (kind_chain F s e d k ts c))) = radar_content c) \<and>
   (\<not> camera_toggles F \<longrightarrow>
      \<not> list_ex (is_lookup_of CameraSharedData) (snd (outcome (kind_chain F s e d k ts c))) \<and>
      \<not> list_ex (is_lookup_of CameraObjectData) (snd (outcome (kind_chain F s e d k ts c))) \<and>
      \<not> list_ex (is_lookup_of CIPVObjectData) (snd (outcome (kind_chain F s e d k ts c))) \<and>
      image_content (fst (outcome (kind_chain F s e d k ts c))) = image_content c \<and>
      camera_content (fst (outcome (kind_chain F s e d k ts c))) = camera_content c) \<and>
   (\<not> show_fused_objects F \<longrightarrow>
      \<not> list_ex (is_lookup_of FusionSharedData) (snd (outcome (kind_chain F s e d k ts c))) \<and>
      fusion_content (fst (outcome (kind_chain F s e d k ts c))) = fusion_content c)"
proof (rule kind_chain_cases, goal_cases)
  case 1 show ?case by (cases rule: camera_branch_cases [of F s k ts c]) auto
next
  case 2 show ?case by (cases rule: radar_branch_cases [of d F s k ts c]) auto
next
  case 3 show ?case by (cases rule: fusion_branch_cases [of F s k ts c]) auto
next
  case 4 show ?case by (cases rule: cipv_branch_cases [of F s k ts c]) auto
next
  case 5 show ?case by simp
qed

lemma kind_chain_timestamp:
  "frame_timestamp (fst (outcome (kind_chain F s e d k ts c))) = frame_timestamp c \<and>
   (isl (kind_chain F s e d k ts c) \<longleftrightarrow>
      \<not> list_all (lookup_found s) (snd (outcome (kind_chain F s e d k ts c))))"
proof (rule kind_chain_cases, goal_cases)
  case 1 show ?case
    by (cases rule: camera_branch_cases [of F s k ts c]) (auto simp: payload_present_iff)
next
  case 2 show ?case
    by (cases rule: radar_branch_cases [of d F s k ts c]) (auto simp: payload_present_iff)
next
  case 3 show ?case
    by (cases rule: fusion_branch_cases [of F s k ts c]) (auto simp: payload_present_iff)
next
  case 4 show ?case
    by (cases rule: cipv_branch_cases [of F s k ts c]) (auto simp: payload_present_iff)
next
  case 5 show ?case by simp
qed

lemma kind_chain_driving_id:
  "kind_chain F (s\<lparr>vis_driven_event_id := v\<rparr>) e d k ts c = kind_chain F s e d k ts c"
proof -
  have "camera_branch F (s\<lparr>vis_driven_event_id := v\<rparr>) k ts c = camera_branch F s k ts c"
    by (simp add: camera_branch_def Let_def split: prod.splits)
  moreover
  have "radar_branch F (s\<lparr>vis_driven_event_id := v\<rparr>) d k ts c = radar_branch F s d k ts c"
    by (simp add: radar_branch_def)
  moreover
  have "fusion_branch F (s\<lparr>vis_driven_event_id := v\<rparr>) k ts c = fusion_branch F s k ts c"
    by (simp add: fusion_branch_def)
  moreover
  have "cipv_branch F (s\<lparr>vis_driven_event_id := v\<rparr>) k ts c = cipv_branch F s k ts c"
    by (simp add: cipv_branch_def Let_def split: prod.splits)
  ultimately show ?thesis by (simp add: kind_chain_def)
qed

lemma kind_chain_missing:
  "Get store key \<in> set (snd (outcome (kind_chain F s e d k ts c))) \<Longrightarrow>
   \<not> payload_present s store key \<Longrightarrow>
   radar_content (fst (outcome (kind_chain F s e d k ts c))) = radar_content c \<and>
   fusion_content (fst (outcome (kind_chain F s e d k ts c))) = fusion_content c \<and>
   camera_content (fst (outcome (kind_chain F s e d k ts c))) = camera_content c \<and>
   (store = CameraSharedData \<longrightarrow>
      image_content (fst (outcome (kind_chain F s e d k ts c))) = image_content c) \<and>
   (store = CameraObjectData \<or> store = CIPVObjectData \<longrightarrow>
      (\<exists>item. camera_shared_data s key = Some (Some item) \<and>
         image_content (fst (outcome (kind_chain F s e d k ts c))) =
           Some (ts, image_src_mat item)))"
proof (rule kind_chain_cases [where P = "\<lambda>r. Get store key \<in> set (snd (outcome r)) \<longrightarrow>
   \<not> payload_present s store key \<longrightarrow>
   radar_content (fst (outcome r)) = radar_content c \<and>
   fusion_content (fst (outcome r)) = fusion_content c \<and>
   camera_content (fst (outcome r)) = camera_content c \<and>
   (store = CameraSharedData \<longrightarrow> image_content (fst (outcome r)) = image_content c) \<and>
   (store = CameraObjectData \<or> store = CIPVObjectData \<longrightarrow>
      (\<exists>item. camera_shared_data s key = Some (Some item) \<and>
         image_content (fst (outcome r)) = Some (ts, image_src_mat item)))", rule_format], goal_cases)
  case 1 then show ?case
    by (cases rule: camera_branch_cases [of F s k ts c]) (auto simp: payload_present_iff)
next
  case 2 then show ?case
    by (cases rule: radar_branch_cases [of d F s k ts c]) (auto simp: payload_present_iff)
next
  case 3 then show ?case
    by (cases rule: fusion_branch_cases [of F s k ts c]) (auto simp: payload_present_iff)
next
  case 4 then show ?case
    by (cases rule: cipv_branch_cases [of F s k ts c]) (auto simp: payload_present_iff)
next
  case 5 then show ?case by simp
qed

subsection \<open>The correlator\<close>

lemma ProcEvent_OK:
  "produce_key (timestamp event) (Event.reserve event) = Some data_key \<Longrightarrow>
   fst (ProcEvent F produce_key event_meta event s) = Status_OK"
  by (simp add: ProcEvent_def Let_def split: prod.splits)

lemma ProcEvents_events_step:
  "produce_key (timestamp event) (Event.reserve event) = Some data_key \<Longrightarrow>
   ProcEvents_events F produce_key event_meta (event # events) s =
     ProcEvents_events F produce_key event_meta events
       (snd (ProcEvent F produce_key event_meta event s))"
  using ProcEvent_OK [of produce_key event data_key F event_meta s]
  by (cases "ProcEvent F produce_key event_meta event s") simp

text \<open>
  C7. Unless the radar toggle is on and the device label is \<^verbatim>\<open>radar_front\<close>,
  \<^verbatim>\<open>GetFrameData\<close> leaves the radar content as it was and does not consult the radar
  store, for a radar event as for any other; a radar event with the toggle on, that label
  and a payload in the store has its objects written. No error comes of it:
  \<^verbatim>\<open>GetFrameData\<close> returns nothing, and the status of the event in \<^verbatim>\<open>ProcEvents\<close> is OK
  once its key is derived.
\<close>

theorem radar_device_filter:
  "GetFrameData F s event device_id data_key ts c = (c', lookups) \<Longrightarrow>
   (\<not> (show_radar_objects F \<and> device_id = ''radar_front'') \<longrightarrow>
      radar_content c' = radar_content c \<and> \<not> list_ex (is_lookup_of RadarObjectData) lookups) \<and>
   (Event.event_id event = radar_event_id s \<and> radar_event_id s \<noteq> camera_event_id s \<and>
    radar_event_id s \<noteq> motion_event_id s \<and> show_radar_objects F \<and>
    device_id = ''radar_front'' \<longrightarrow>
      (\<forall>objs. radar_object_data s data_key = Some (Some objs) \<longrightarrow>
         radar_content c' = Some (ts, objects objs))) \<and>
   (produce_key (timestamp event) (Event.reserve event) = Some data_key \<longrightarrow>
      fst (ProcEvent F produce_key event_meta event s) = Status_OK)"
  using kind_chain_radar [of F device_id s event data_key ts c]
    kind_chain_radar_written [of event s F data_key _ ts c]
    GetFrameData_fields(3) [of F s event device_id data_key ts c]
    GetFrameData_lookups [of F s event device_id data_key ts c]
    ProcEvent_OK [of produce_key event data_key F event_meta s]
  by auto

theorem radar_device_filter_witness:
  "\<not> (show_radar_objects flags_on \<and> ''radar_rear'' = ''radar_front'') \<and>
   radar_content (fst (GetFrameData flags_on node_ready (radar_event ''radar_rear'')
      ''radar_rear'' ''radar_rear'' 5 FrameContent_empty)) = None \<and>
   snd (GetFrameData flags_on node_ready (radar_event ''radar_rear'')
      ''radar_rear'' ''radar_rear'' 5 FrameContent_empty) = [] \<and>
   radar_content (fst (GetFrameData flags_on node_ready (radar_event ''radar_front'')
      ''radar_front'' ''radar_front'' 5 FrameContent_empty)) = Some (5, [VisualObject 1]) \<and>
   fst (ProcEvent flags_on key_of \<lparr>EventMeta.event_id = 1005\<rparr> (radar_event ''radar_rear'')
      node_ready) = Status_OK"
  using radar_device_filter [of flags_on node_ready "radar_event ''radar_rear''"
      "''radar_rear''" "''radar_rear''" 5 FrameContent_empty
      "fst (GetFrameData flags_on node_ready (radar_event ''radar_rear'')
         ''radar_rear'' ''radar_rear'' 5 FrameContent_empty)"
      "snd (GetFrameData flags_on node_ready (radar_event ''radar_rear'')
         ''radar_rear'' ''radar_rear'' 5 FrameContent_empty)"
      key_of "\<lparr>EventMeta.event_id = 1005\<rparr>"]
    radar_device_filter [of flags_on node_ready "radar_event ''radar_front''"
      "''radar_front''" "''radar_front''" 5 FrameContent_empty
      "fst (GetFrameData flags_on node_ready (radar_event ''radar_front'')
         ''radar_front'' ''radar_front'' 5 FrameContent_empty)"
      "snd (GetFrameData flags_on node_ready (radar_event ''radar_front'')
         ''radar_front'' ''radar_front'' 5 FrameContent_empty)"
      key_of "\<lparr>EventMeta.event_id = 1005\<rparr>"]
  by (simp add: GetFrameData_def kind_chain_def radar_branch_def SharedData_Get_def
      set_radar_content_def flags_on_def node_ready_def node_fresh_def radar_event_def
      FrameContent_empty_def key_of_def)


text \<open>
  C9. With the toggle of a kind off, \<^verbatim>\<open>GetFrameData\<close> makes no lookup in the stores of
  that kind and leaves the fields of that kind as they were, for an event of that kind as
  for any other: the radar store and the radar content with the radar toggle off; the
  image store, the two detection stores and the image and camera content with the three
  camera toggles off; the fusion store and the fused obstacles with the fusion toggle off.
\<close>

theorem toggle_off_no_lookup:
  "GetFrameData F s event device_id data_key ts c = (c', lookups) \<Longrightarrow>
   (\<not> show_radar_objects F \<longrightarrow>
      \<not> list_ex (is_lookup_of RadarObjectData) lookups \<and> radar_content c' = radar_content c) \<and>
   (\<not> (show_camera_objects F \<or> show_camera_objects2d F \<or> show_camera_parsing F) \<longrightarrow>
      \<not> list_ex (is_lookup_of CameraSharedData) lookups \<and>
      \<not> list_ex (is_lookup_of CameraObjectData) lookups \<and>
      \<not> list_ex (is_lookup_of CIPVObjectData) lookups \<and>
      image_content c' = image_content c \<and> camera_content c' = camera_content c) \<and>
   (\<not> show_fused_objects F \<longrightarrow>
      \<not> list_ex (is_lookup_of FusionSharedData) lookups \<and> fusion_content c' = fusion_content c)"
  using kind_chain_toggles [of F s event device_id data_key ts c]
    GetFrameData_fields [of F s event device_id data_key ts c]
    GetFrameData_lookups [of F s event device_id data_key ts c]
  by (simp add: camera_toggles_def)

theorem toggle_off_no_lookup_witness:
  "\<not> show_radar_objects flags_off \<and> \<not> show_fused_objects flags_off \<and>
   \<not> (show_camera_objects flags_off \<or> show_camera_objects2d flags_off \<or>
      show_camera_parsing flags_off) \<and>
   GetFrameData flags_off node_ready (radar_event ''radar_front'') ''radar_front''
     ''radar_front'' 5 FrameContent_empty = (FrameContent_empty, []) \<and>
   GetFrameData flags_off node_ready camera_event ''camera'' ''camera'' 5 FrameContent_empty =
     (FrameContent_empty, []) \<and>
   snd (GetFrameData flags_off node_ready (driving_event 5 ''fusion'') ''fusion'' ''fusion'' 5
     FrameContent_empty) = [] \<and>
   fusion_content (fst (GetFrameData flags_off node_ready (driving_event 5 ''fusion'') ''fusion''
     ''fusion'' 5 FrameContent_empty)) = None"
  using toggle_off_no_lookup [of flags_off node_ready "radar_event ''radar_front''"
      "''radar_front''" "''radar_front''" 5 FrameContent_empty FrameContent_empty "[]"]
    toggle_off_no_lookup [of flags_off node_ready camera_event
      "''camera''" "''camera''" 5 FrameContent_empty FrameContent_empty "[]"]
  by (simp add: GetFrameData_def kind_chain_def radar_branch_def camera_branch_def
      fusion_branch_def flags_off_def node_ready_def node_fresh_def radar_event_def
      camera_event_def driving_event_def FrameContent_empty_def update_timestamp_def)

text \<open>
  C2, as the code has it. For an event with the driving identifier, when every lookup that
  \<^verbatim>\<open>GetFrameData\<close> made for it found its payload (or none was made), the frame timestamp
  is the timestamp passed for the event whichever branch ran, and the content is what the
  branch alone produces, with that timestamp: an identifier shared between the driving
  kind and another kind gets both updates. When a lookup found no payload the function
  has returned from the branch, and the frame timestamp is what it was.
\<close>

theorem driving_timestamp:
  "Event.event_id event = vis_driven_event_id s \<Longrightarrow>
   GetFrameData F s event device_id data_key ts c = (c', lookups) \<Longrightarrow>
   (list_all (lookup_found s) lookups \<longrightarrow>
      frame_timestamp c' = ts \<and>
      c' = update_timestamp ts
             (fst (GetFrameData F (s\<lparr>vis_driven_event_id := Event.event_id event + 1\<rparr>) event
                     device_id data_key ts c))) \<and>
   (\<not> list_all (lookup_found s) lookups \<longrightarrow> frame_timestamp c' = frame_timestamp c)"
  using kind_chain_timestamp [of F s event device_id data_key ts c]
    kind_chain_driving_id [of F "Event.event_id event + 1" s event device_id data_key ts c]
    GetFrameData_content [of F s event device_id data_key ts c]
    GetFrameData_content [of F "s\<lparr>vis_driven_event_id := Event.event_id event + 1\<rparr>" event
      device_id data_key ts c]
    GetFrameData_lookups [of F s event device_id data_key ts c]
  by (auto simp: Let_def update_timestamp_def)

theorem driving_timestamp_witness:
  "Event.event_id (driving_event 5 ''fusion'') = vis_driven_event_id node_ready \<and>
   list_all (lookup_found node_ready)
     (snd (GetFrameData flags_on node_ready (driving_event 5 ''fusion'') ''fusion'' ''fusion'' 5
        FrameContent_empty)) \<and>
   GetFrameData flags_on node_ready (driving_event 5 ''fusion'') ''fusion'' ''fusion'' 5
     FrameContent_empty =
     (FrameContent_empty\<lparr>fusion_content := Some (5, [VisualObject 2]), frame_timestamp := 5\<rparr>,
      [Get FusionSharedData ''fusion'']) \<and>
   \<not> list_all (lookup_found node_ready) [Get FusionSharedData ''absent''] \<and>
   GetFrameData flags_on node_ready (driving_event 5 ''absent'') ''absent'' ''absent'' 5
     FrameContent_empty = (FrameContent_empty, [Get FusionSharedData ''absent''])"
  using driving_timestamp [of "driving_event 5 ''fusion''" node_ready flags_on "''fusion''"
      "''fusion''" 5 FrameContent_empty
      "FrameContent_empty\<lparr>fusion_content := Some (5, [VisualObject 2]), frame_timestamp := 5\<rparr>"
      "[Get FusionSharedData ''fusion'']"]
    driving_timestamp [of "driving_event 5 ''absent''" node_ready flags_on "''absent''"
      "''absent''" 5 FrameContent_empty FrameContent_empty "[Get FusionSharedData ''absent'']"]
  by (simp add: GetFrameData_def kind_chain_def fusion_branch_def SharedData_Get_def
      set_fusion_content_def update_timestamp_def payload_present_def flags_on_def
      node_ready_def node_fresh_def driving_event_def FrameContent_empty_def)

text \<open>
  As the spec states it, C2 fails: the driving identifier is shared with the fusion
  kind, the fusion store has nothing under the key, and \<^verbatim>\<open>GetFrameData\<close> returns from
  the fusion branch with the frame timestamp still 0, not the 5 of the event.
\<close>

theorem driving_timestamp_counterexample:
  "Event.event_id (driving_event 5 ''absent'') = vis_driven_event_id node_ready \<and>
   frame_timestamp (fst (GetFrameData flags_on node_ready (driving_event 5 ''absent'')
      ''absent'' ''absent'' (timestamp (driving_event 5 ''absent'')) FrameContent_empty))
     \<noteq> timestamp (driving_event 5 ''absent'')"
  by (simp add: GetFrameData_def kind_chain_def fusion_branch_def SharedData_Get_def
      flags_on_def node_ready_def node_fresh_def driving_event_def FrameContent_empty_def)

subsection \<open>The cycle\<close>

lemma GetFrameData_lookups_Get:
  "\<forall>x \<in> set (snd (GetFrameData F s e d k ts c)). \<exists>store. x = Get store k"
  unfolding GetFrameData_lookups
proof (rule kind_chain_cases, goal_cases)
  case 1 show ?case by (cases rule: camera_branch_cases [of F s k ts c]) auto
next
  case 2 show ?case by (cases rule: radar_branch_cases [of d F s k ts c]) auto
next
  case 3 show ?case by (cases rule: fusion_branch_cases [of F s k ts c]) auto
next
  case 4 show ?case by (cases rule: cipv_branch_cases [of F s k ts c]) auto
next
  case 5 show ?case by simp
qed

text \<open>What the body of the event loop does, in one equation.\<close>

lemma ProcEvent_Some:
  assumes "produce_key (timestamp event) (Event.reserve event) = Some data_key"
  shows "ProcEvent F produce_key event_meta event s =
     (Status_OK,
      s\<lparr>content := fst (GetFrameData F s event (Event.reserve event) data_key (timestamp event) (content s)),
        calls := calls s @ Correlate (EventMeta.event_id event_meta) event #
           snd (GetFrameData F s event (Event.reserve event) data_key (timestamp event) (content s)) @
           (if EventMeta.event_id event_meta = vis_driven_event_id s then
              (if init s then [] else [VisInit]) @
              [VisUpdateCameraSystem (fst (GetFrameData F s event (Event.reserve event) data_key (timestamp event) (content s))),
               VisRender (fst (GetFrameData F s event (Event.reserve event) data_key (timestamp event) (content s)))]
            else []),
        init := (init s \<or> EventMeta.event_id event_meta = vis_driven_event_id s)\<rparr>)"
  using assms by (simp add: ProcEvent_def Let_def split: prod.splits)

lemma ProcEvent_None:
  "produce_key (timestamp event) (Event.reserve event) = None \<Longrightarrow>
   ProcEvent F produce_key event_meta event s =
     (Status PERCEPTION_ERROR ''Failed to proc events.'', s)"
  by (simp add: ProcEvent_def)


lemma error_not_OK [simp]: "Status PERCEPTION_ERROR msg \<noteq> Status_OK"
  by (simp add: Status_OK_def)

lemma SubscribeEvents_ok:
  "SubscribeEvents s event_meta events = Some (ok, events', em') \<Longrightarrow> ok"
  by (auto simp: SubscribeEvents_def Let_def split: if_splits option.splits prod.splits)

lemma ProcEvents_events_append:
  "ProcEvents_events F produce_key event_meta (earlier @ later) s =
     (case ProcEvents_events F produce_key event_meta earlier s of (st, s') \<Rightarrow>
        if st = Status_OK then ProcEvents_events F produce_key event_meta later s'
        else (st, s'))"
  by (induction earlier arbitrary: s) (auto split: prod.splits)

lemma ProcEvents_metas_append:
  "ProcEvents_metas F produce_key (metas0 @ metas) s =
     (case ProcEvents_metas F produce_key metas0 s of
        None \<Rightarrow> None
      | Some (st, s') \<Rightarrow>
          if st = Status_OK then ProcEvents_metas F produce_key metas s' else Some (st, s'))"
proof (induction metas0 arbitrary: s)
  case Nil
  show ?case by simp
next
  case (Cons m metas0)
  show ?case
    by (simp add: Cons.IH Let_def split: option.splits prod.splits)
qed

text \<open>
  A relation between the node before and after that holds across the body of the event
  loop and across a change of the bus, and is reflexive and transitive, holds across the
  loops.
\<close>

lemma ProcEvents_events_rel:
  assumes refl: "\<And>s. R s s" and trans: "\<And>a b c. R a b \<Longrightarrow> R b c \<Longrightarrow> R a c"
    and step: "\<And>e s. R s (snd (ProcEvent F produce_key event_meta e s))"
  shows "R s (snd (ProcEvents_events F produce_key event_meta events s))"
proof (induction events arbitrary: s)
  case Nil
  show ?case by (simp add: refl)
next
  case (Cons e events)
  obtain st s' where pe: "ProcEvent F produce_key event_meta e s = (st, s')"
    by (cases "ProcEvent F produce_key event_meta e s")
  have r1: "R s s'" using step [of s e] pe by simp
  show ?case
  proof (cases "st = Status_OK")
    case True
    with pe r1 Cons.IH [of s'] show ?thesis by (auto intro: trans)
  next
    case False
    with pe r1 show ?thesis by simp
  qed
qed

lemma ProcEvents_metas_rel:
  assumes refl: "\<And>s. R s s" and trans: "\<And>a b c. R a b \<Longrightarrow> R b c \<Longrightarrow> R a c"
    and bus: "\<And>s em. R s (s\<lparr>event_manager := em\<rparr>)"
    and step: "\<And>m e s. R s (snd (ProcEvent F produce_key m e s))"
  shows "ProcEvents_metas F produce_key metas s = Some (st, s') \<Longrightarrow> R s s'"
proof (induction metas arbitrary: s)
  case Nil
  then show ?case by (simp add: refl)
next
  case (Cons m metas)
  from Cons.prems obtain ok events em' where
    sub: "SubscribeEvents s m [] = Some (ok, events, em')"
    by (auto split: option.splits)
  have ok using SubscribeEvents_ok [OF sub] .
  let ?s1 = "s\<lparr>event_manager := em'\<rparr>"
  obtain st2 s2 where ev: "ProcEvents_events F produce_key m events ?s1 = (st2, s2)"
    by (cases "ProcEvents_events F produce_key m events ?s1")
  have r1: "R s ?s1" by (rule bus)
  have r2: "R ?s1 s2"
    using ProcEvents_events_rel [of R F produce_key m ?s1 events, OF refl trans step] ev
    by simp
  show ?case
  proof (cases "st2 = Status_OK")
    case True
    with Cons.prems sub \<open>ok\<close> ev have "ProcEvents_metas F produce_key metas s2 = Some (st, s')"
      by (cases events) (auto simp: Let_def)
    then have "R s2 s'" by (rule Cons.IH)
    with r1 r2 show ?thesis by (blast intro: trans)
  next
    case False
    with Cons.prems sub \<open>ok\<close> ev have "s' = s2"
      by (cases events) (auto simp: Let_def)
    with r1 r2 show ?thesis by (blast intro: trans)
  qed
qed



text \<open>
  C6. When the key of an event cannot be derived, \<^verbatim>\<open>ProcEvents\<close> returns the failure
  status with the node as the events before it left it: the events after it and the kinds
  after its kind are not processed. The event may be any event of any kind of the cycle:
  the kinds before it have been processed, and so have the earlier events of its kind.
\<close>

theorem key_failure_aborts_cycle:
  "sub_meta_events s0 = metas0 @ event_meta # metas \<Longrightarrow>
   ProcEvents_metas F produce_key metas0 s0 = Some (Status_OK, s) \<Longrightarrow>
   SubscribeEvents s event_meta [] = Some (ok, earlier @ event # later, em') \<Longrightarrow>
   ProcEvents_events F produce_key event_meta earlier (s\<lparr>event_manager := em'\<rparr>) =
     (Status_OK, s1) \<Longrightarrow>
   produce_key (timestamp event) (Event.reserve event) = None \<Longrightarrow>
   ProcEvents F produce_key s0 = Some (Status PERCEPTION_ERROR ''Failed to proc events.'', s1)"
proof -
  assume metas: "sub_meta_events s0 = metas0 @ event_meta # metas"
    and before: "ProcEvents_metas F produce_key metas0 s0 = Some (Status_OK, s)"
    and sub: "SubscribeEvents s event_meta [] = Some (ok, earlier @ event # later, em')"
    and earlier: "ProcEvents_events F produce_key event_meta earlier (s\<lparr>event_manager := em'\<rparr>) =
      (Status_OK, s1)"
    and key: "produce_key (timestamp event) (Event.reserve event) = None"
  have ok using SubscribeEvents_ok [OF sub] .
  have "ProcEvents_events F produce_key event_meta (event # later) s1 =
      (Status PERCEPTION_ERROR ''Failed to proc events.'', s1)"
    using key ProcEvent_None [of produce_key event F event_meta s1] by simp
  with earlier have "ProcEvents_events F produce_key event_meta (earlier @ event # later)
      (s\<lparr>event_manager := em'\<rparr>) = (Status PERCEPTION_ERROR ''Failed to proc events.'', s1)"
    by (simp add: ProcEvents_events_append)
  with sub \<open>ok\<close> have "ProcEvents_metas F produce_key (event_meta # metas) s =
      Some (Status PERCEPTION_ERROR ''Failed to proc events.'', s1)"
    by (simp add: Let_def)
  with before metas show ?thesis
    by (simp add: ProcEvents_def ProcEvents_metas_append)
qed

theorem key_failure_aborts_cycle_witness:
  "sub_meta_events (node_ready\<lparr>event_manager := bus_bad\<rparr>) =
     [] @ \<lparr>EventMeta.event_id = 1005\<rparr> # [\<lparr>EventMeta.event_id = 1009\<rparr>] \<and>
   SubscribeEvents (node_ready\<lparr>event_manager := bus_bad\<rparr>) \<lparr>EventMeta.event_id = 1005\<rparr> [] =
     Some (True, [radar_event ''radar_front''] @ radar_event ''bad'' # [radar_event ''radar_front''],
           bus_bad(1005 \<mapsto> [])) \<and>
   key_of (timestamp (radar_event ''bad'')) (Event.reserve (radar_event ''bad'')) = None \<and>
   map_option fst (ProcEvents flags_on key_of (node_ready\<lparr>event_manager := bus_bad\<rparr>)) =
     Some (Status PERCEPTION_ERROR ''Failed to proc events.'') \<and>
   map_option (calls \<circ> snd) (ProcEvents flags_on key_of (node_ready\<lparr>event_manager := bus_bad\<rparr>)) =
     Some [Correlate 1005 (radar_event ''radar_front''), Get RadarObjectData ''radar_front'']"
  using key_failure_aborts_cycle [of "node_ready\<lparr>event_manager := bus_bad\<rparr>" "[]"
      "\<lparr>EventMeta.event_id = 1005\<rparr>" "[\<lparr>EventMeta.event_id = 1009\<rparr>]" flags_on key_of
      "node_ready\<lparr>event_manager := bus_bad\<rparr>" True "[radar_event ''radar_front'']"
      "radar_event ''bad''" "[radar_event ''radar_front'']" "bus_bad(1005 \<mapsto> [])"
      "snd (ProcEvents_events flags_on key_of \<lparr>EventMeta.event_id = 1005\<rparr>
         [radar_event ''radar_front''] (node_ready\<lparr>event_manager := bus_bad(1005 \<mapsto> [])\<rparr>))"]
  by (simp add: node_ready_def node_fresh_def SubscribeEvents_def drain.simps Subscribe_def
      bus_bad_def ProcEvent_def GetFrameData_def kind_chain_def Event_init_def key_of_def Let_def
      FrameContent_empty_def radar_event_def driving_event_def radar_branch_def flags_on_def
      SharedData_Get_def set_radar_content_def)




subsection \<open>What a cycle dispatches\<close>

lemma well_paced_append:
  "well_paced d w xs \<Longrightarrow> well_paced d False ys \<Longrightarrow> well_paced d w (xs @ ys)"
  by (induction d w xs rule: well_paced.induct) auto

lemma well_paced_lookups:
  "\<forall>x \<in> set ls. \<exists>store. x = Get store k \<Longrightarrow> well_paced d w (ls @ rest) = well_paced d w rest"
  by (induction ls) auto

lemma GetFrameData_same_env:
  "same_env s s' \<Longrightarrow> GetFrameData F s' e d k ts c = GetFrameData F s e d k ts c"
proof -
  assume env: "same_env s s'"
  then have eqs: "vis_driven_event_id s' = vis_driven_event_id s"
    "radar_event_id s' = radar_event_id s" "camera_event_id s' = camera_event_id s"
    "cipv_event_id s' = cipv_event_id s" "fusion_event_id s' = fusion_event_id s"
    "motion_event_id s' = motion_event_id s" "radar_object_data s' = radar_object_data s"
    "camera_object_data s' = camera_object_data s" "cipv_object_data s' = cipv_object_data s"
    "fusion_data s' = fusion_data s" "camera_shared_data s' = camera_shared_data s"
    by (simp_all add: same_env_def)
  show ?thesis
    unfolding GetFrameData_def kind_chain_def camera_branch_def radar_branch_def
      fusion_branch_def cipv_branch_def eqs ..
qed

lemma correlate_same_env:
  "same_env s s' \<Longrightarrow> correlate F produce_key s' e c = correlate F produce_key s e c"
  using GetFrameData_same_env [of s s' F e]
  by (simp add: correlate_def split: option.splits)

lemma snapshot_after_same_env:
  "same_env s s' \<Longrightarrow> snapshot_after F produce_key s' c es = snapshot_after F produce_key s c es"
  using correlate_same_env [of s s' F produce_key]
  by (induction es arbitrary: c) auto

lemma snapshots_rendered_same_env:
  "same_env s s' \<Longrightarrow>
   snapshots_rendered F produce_key s' c es = snapshots_rendered F produce_key s c es"
  using correlate_same_env [of s s' F produce_key]
  by (induction es arbitrary: c) (auto simp: same_env_def)

lemma snapshot_after_append:
  "snapshot_after F produce_key s c (xs @ ys) =
     snapshot_after F produce_key s (snapshot_after F produce_key s c xs) ys"
  by (induction xs arbitrary: c) auto

lemma snapshots_rendered_append:
  "snapshots_rendered F produce_key s c (xs @ ys) =
     snapshots_rendered F produce_key s c xs @
     snapshots_rendered F produce_key s (snapshot_after F produce_key s c xs) ys"
  by (induction xs arbitrary: c) auto

lemma correlated_append: "correlated (xs @ ys) = correlated xs @ correlated ys"
  by (induction xs rule: correlated.induct) simp_all

lemma rendered_append: "rendered (xs @ ys) = rendered xs @ rendered ys"
  by (induction xs rule: rendered.induct) simp_all

lemma lookups_silent:
  "\<forall>x \<in> set ls. \<exists>store. x = Get store k \<Longrightarrow> correlated ls = [] \<and> rendered ls = []"
  by (induction ls) auto

lemma same_env_refl: "same_env s s"
  by (simp add: same_env_def)

lemma same_env_trans: "same_env a b \<Longrightarrow> same_env b c \<Longrightarrow> same_env a c"
  by (simp add: same_env_def)

lemma dispatched_bus: "dispatched F produce_key s [] (s\<lparr>event_manager := em\<rparr>)"
  by (simp add: dispatched_def same_env_def)

lemma dispatched_trans:
  assumes "dispatched F produce_key a xs b" and "dispatched F produce_key b ys c"
  shows "dispatched F produce_key a (xs @ ys) c"
proof -
  from assms(1) obtain new1 where env1: "same_env a b"
    and c1: "content b = snapshot_after F produce_key a (content a) xs"
    and n1: "calls b = calls a @ new1" "correlated new1 = xs"
      "rendered new1 = snapshots_rendered F produce_key a (content a) xs"
      "well_paced (vis_driven_event_id a) False new1"
    by (auto simp: dispatched_def)
  from assms(2) obtain new2 where env2: "same_env b c"
    and c2: "content c = snapshot_after F produce_key b (content b) ys"
    and n2: "calls c = calls b @ new2" "correlated new2 = ys"
      "rendered new2 = snapshots_rendered F produce_key b (content b) ys"
      "well_paced (vis_driven_event_id b) False new2"
    by (auto simp: dispatched_def)
  from env1 have d: "vis_driven_event_id b = vis_driven_event_id a"
    by (simp add: same_env_def)
  have content: "content c = snapshot_after F produce_key a (content a) (xs @ ys)"
    using c1 c2 by (simp add: snapshot_after_append snapshot_after_same_env [OF env1])
  have "calls c = calls a @ (new1 @ new2)" using n1(1) n2(1) by simp
  moreover have "correlated (new1 @ new2) = xs @ ys"
    using n1(2) n2(2) by (simp add: correlated_append)
  moreover have "rendered (new1 @ new2) = snapshots_rendered F produce_key a (content a) (xs @ ys)"
    using n1(3) n2(3) c1
    by (simp add: rendered_append snapshots_rendered_append
        snapshots_rendered_same_env [OF env1])
  moreover have "well_paced (vis_driven_event_id a) False (new1 @ new2)"
    using n1(4) n2(4) d by (simp add: well_paced_append)
  ultimately have "\<exists>new. calls c = calls a @ new \<and> correlated new = xs @ ys \<and>
      rendered new = snapshots_rendered F produce_key a (content a) (xs @ ys) \<and>
      well_paced (vis_driven_event_id a) False new"
    by (intro exI [of _ "new1 @ new2"] conjI)
  with same_env_trans [OF env1 env2] content show ?thesis
    unfolding dispatched_def by (intro conjI)
qed

lemma dispatched_ProcEvent:
  assumes key: "produce_key (timestamp event) (Event.reserve event) = Some data_key"
  shows "dispatched F produce_key s [(EventMeta.event_id event_meta, event)]
           (snd (ProcEvent F produce_key event_meta event s))"
proof -
  let ?c = "fst (GetFrameData F s event (Event.reserve event) data_key (timestamp event)
    (content s))"
  let ?ls = "snd (GetFrameData F s event (Event.reserve event) data_key (timestamp event)
    (content s))"
  let ?vis = "if EventMeta.event_id event_meta = vis_driven_event_id s
    then (if init s then [] else [VisInit]) @ [VisUpdateCameraSystem ?c, VisRender ?c] else []"
  let ?new = "Correlate (EventMeta.event_id event_meta) event # ?ls @ ?vis"
  let ?s' = "snd (ProcEvent F produce_key event_meta event s)"
  note gets = GetFrameData_lookups_Get
      [of F s event "Event.reserve event" data_key "timestamp event" "content s"]
  have step: "?s' = s\<lparr>content := ?c, calls := calls s @ ?new,
      init := (init s \<or> EventMeta.event_id event_meta = vis_driven_event_id s)\<rparr>"
    by (simp add: ProcEvent_Some [of produce_key event data_key, OF key])
  have corr: "correlate F produce_key s event (content s) = ?c"
    using key by (simp add: correlate_def)
  have env: "same_env s ?s'" unfolding step by (simp add: same_env_def)
  have content: "content ?s' = snapshot_after F produce_key s (content s)
      [(EventMeta.event_id event_meta, event)]"
    unfolding step by (simp add: corr)
  have "calls ?s' = calls s @ ?new" unfolding step by simp
  moreover have "correlated ?new = [(EventMeta.event_id event_meta, event)]"
    using lookups_silent [OF gets] by (simp add: correlated_append)
  moreover have "rendered ?new = snapshots_rendered F produce_key s (content s)
      [(EventMeta.event_id event_meta, event)]"
    using lookups_silent [OF gets] by (simp add: rendered_append corr)
  moreover have "well_paced (vis_driven_event_id s) False ?new"
    by (simp add: well_paced_lookups [OF gets])
  ultimately have "\<exists>new. calls ?s' = calls s @ new \<and>
      correlated new = [(EventMeta.event_id event_meta, event)] \<and>
      rendered new = snapshots_rendered F produce_key s (content s)
        [(EventMeta.event_id event_meta, event)] \<and>
      well_paced (vis_driven_event_id s) False new"
    by (intro exI [of _ ?new] conjI)
  with env content show ?thesis unfolding dispatched_def by (intro conjI)
qed

lemma takeWhile_all_append: "list_all P xs \<Longrightarrow> takeWhile P (xs @ ys) = xs @ takeWhile P ys"
  by (induction xs) auto

lemma dispatched_refl: "dispatched F produce_key s [] s"
  by (simp add: dispatched_def same_env_def)

lemma ProcEvents_events_dispatched:
  "ProcEvents_events F produce_key event_meta events s = (st, s') \<Longrightarrow>
   st = (if list_all (key_derived produce_key) (map (Pair (EventMeta.event_id event_meta)) events)
         then Status_OK else Status PERCEPTION_ERROR ''Failed to proc events.'') \<and>
   dispatched F produce_key s
     (takeWhile (key_derived produce_key) (map (Pair (EventMeta.event_id event_meta)) events)) s'"
proof (induction events arbitrary: s)
  case Nil
  then show ?case by (auto simp: dispatched_refl)
next
  case (Cons e events)
  show ?case
  proof (cases "produce_key (timestamp e) (Event.reserve e)")
    case None
    with Cons.prems show ?thesis
      by (auto simp: ProcEvent_None key_derived_def dispatched_refl)
  next
    case (Some data_key)
    let ?s1 = "snd (ProcEvent F produce_key event_meta e s)"
    from Cons.prems have rest: "ProcEvents_events F produce_key event_meta events ?s1 = (st, s')"
      using ProcEvents_events_step [of produce_key e data_key F event_meta events s] Some
      by simp
    from dispatched_ProcEvent [of produce_key e data_key F s event_meta] Some
    have one: "dispatched F produce_key s [(EventMeta.event_id event_meta, e)] ?s1" by simp
    from Cons.IH [OF rest] dispatched_trans [OF one] Some show ?thesis
      by (auto simp: key_derived_def)
  qed
qed

lemma ProcEvents_events_bus:
  "event_manager (snd (ProcEvents_events F produce_key event_meta events s)) = event_manager s"
  using ProcEvents_events_rel [of "\<lambda>a b. event_manager b = event_manager a" F produce_key
      event_meta s events]
  by (simp add: ProcEvent_def Let_def split: option.splits prod.splits)

lemma taken_cong:
  "vis_driven_event_id s' = vis_driven_event_id s \<Longrightarrow> event_manager s' = event_manager s \<Longrightarrow>
   taken produce_key s' metas = taken produce_key s metas"
proof (induction metas arbitrary: s s')
  case Nil
  show ?case by simp
next
  case (Cons m metas)
  have sub: "SubscribeEvents s' m [] = SubscribeEvents s m []"
    using Cons.prems by (simp add: SubscribeEvents_def)
  have "taken produce_key (s'\<lparr>event_manager := em\<rparr>) metas =
      taken produce_key (s\<lparr>event_manager := em\<rparr>) metas" for em
    using Cons.prems by (intro Cons.IH) simp_all
  with sub show ?case by (simp add: Let_def split: option.splits)
qed

text \<open>
  A cycle, whole: it returns when its subscriptions do; it fails exactly when an event it
  took has no key; and the events before that one, no other, are dispatched in order.
\<close>

lemma ProcEvents_metas_dispatched:
  "taken produce_key s metas = Some tk \<Longrightarrow>
   \<exists>s'. ProcEvents_metas F produce_key metas s =
          Some (if list_all (key_derived produce_key) tk then Status_OK
                else Status PERCEPTION_ERROR ''Failed to proc events.'', s') \<and>
        dispatched F produce_key s (takeWhile (key_derived produce_key) tk) s'"
proof (induction metas arbitrary: s tk)
  case Nil
  then show ?case by (auto simp: dispatched_refl)
next
  case (Cons m metas)
  from Cons.prems obtain ok events em' where
    sub: "SubscribeEvents s m [] = Some (ok, events, em')"
    by (auto split: option.splits)
  have ok using SubscribeEvents_ok [OF sub] .
  let ?here = "map (Pair (EventMeta.event_id m)) events"
  let ?s1 = "s\<lparr>event_manager := em'\<rparr>"
  obtain st2 s2 where ev: "ProcEvents_events F produce_key m events ?s1 = (st2, s2)"
    by (cases "ProcEvents_events F produce_key m events ?s1")
  note inner = ProcEvents_events_dispatched [OF ev]
  have to_s2: "dispatched F produce_key s (takeWhile (key_derived produce_key) ?here) s2"
    using dispatched_trans [OF dispatched_bus [of F produce_key s em'] conjunct2 [OF inner]]
    by simp
  show ?case
  proof (cases "list_all (key_derived produce_key) ?here")
    case False
    with Cons.prems sub have tk: "tk = ?here" by (simp add: Let_def)
    from False inner have "st2 = Status PERCEPTION_ERROR ''Failed to proc events.''"
      by simp
    with sub \<open>ok\<close> ev False have "ProcEvents_metas F produce_key (m # metas) s =
        Some (Status PERCEPTION_ERROR ''Failed to proc events.'', s2)"
      by (cases events) (auto simp: Let_def)
    with False to_s2 tk show ?thesis by auto
  next
    case True
    with Cons.prems sub obtain rest where
      rest: "taken produce_key ?s1 metas = Some rest" and tk: "tk = ?here @ rest"
      by (auto simp: Let_def)
    from True inner have st2: "st2 = Status_OK" by simp
    have "event_manager s2 = event_manager ?s1"
      using ProcEvents_events_bus [of F produce_key m events ?s1] ev by simp
    moreover from inner have "vis_driven_event_id s2 = vis_driven_event_id ?s1"
      by (simp add: dispatched_def same_env_def)
    ultimately have "taken produce_key s2 metas = Some rest"
      using rest taken_cong [of s2 ?s1 produce_key metas] by simp
    from Cons.IH [OF this] obtain s' where
      run: "ProcEvents_metas F produce_key metas s2 =
        Some (if list_all (key_derived produce_key) rest then Status_OK
              else Status PERCEPTION_ERROR ''Failed to proc events.'', s')"
      and disp: "dispatched F produce_key s2 (takeWhile (key_derived produce_key) rest) s'"
      by blast
    have same: "ProcEvents_metas F produce_key (m # metas) s =
        ProcEvents_metas F produce_key metas s2"
      using sub \<open>ok\<close> ev st2 by (cases events) (auto simp: Let_def)
    have prefix: "takeWhile (key_derived produce_key) tk =
        ?here @ takeWhile (key_derived produce_key) rest"
      using True tk by (simp add: takeWhile_all_append)
    have whole: "takeWhile (key_derived produce_key) ?here = ?here"
      using True takeWhile_all_append [of "key_derived produce_key" ?here "[]"] by simp
    have status: "list_all (key_derived produce_key) tk = list_all (key_derived produce_key) rest"
      using True tk by simp
    have "dispatched F produce_key s (takeWhile (key_derived produce_key) tk) s'"
      using dispatched_trans [OF to_s2 disp] unfolding whole prefix .
    with run show ?thesis unfolding same status by blast
  qed
qed

text \<open>
  C4, as the code has it. A cycle whose subscriptions return takes events from the bus,
  kind after kind, until an event has no key; it fails exactly when there is such an event.
  The events before that one are correlated in the order they were taken, and no other.
  The contents rendered are, in order, one for each of these events that was subscribed
  under the driving identifier and none for the others: the snapshot that \<^verbatim>\<open>GetFrameData\<close>
  returns for that event on top of the snapshot of the previous cycles and of all the
  events before it in the cycle. Each render follows the correlation of its event before
  any other event is correlated. The event without a key is taken and not rendered.
\<close>

theorem render_per_driving_event:
  "taken produce_key s (sub_meta_events s) = Some tk \<Longrightarrow>
   \<exists>s'. ProcEvents F produce_key s =
          Some (if list_all (key_derived produce_key) tk then Status_OK
                else Status PERCEPTION_ERROR ''Failed to proc events.'', s') \<and>
        content s' =
          snapshot_after F produce_key s (content s) (takeWhile (key_derived produce_key) tk) \<and>
        (\<exists>new. calls s' = calls s @ new \<and>
           correlated new = takeWhile (key_derived produce_key) tk \<and>
           rendered new =
             snapshots_rendered F produce_key s (content s)
               (takeWhile (key_derived produce_key) tk) \<and>
           well_paced (vis_driven_event_id s) False new)"
proof -
  assume "taken produce_key s (sub_meta_events s) = Some tk"
  from ProcEvents_metas_dispatched [OF this, of F] obtain s' where
    run: "ProcEvents F produce_key s =
      Some (if list_all (key_derived produce_key) tk then Status_OK
            else Status PERCEPTION_ERROR ''Failed to proc events.'', s')"
    and "dispatched F produce_key s (takeWhile (key_derived produce_key) tk) s'"
    unfolding ProcEvents_def by blast
  then have "content s' =
      snapshot_after F produce_key s (content s) (takeWhile (key_derived produce_key) tk)"
    and "\<exists>new. calls s' = calls s @ new \<and>
      correlated new = takeWhile (key_derived produce_key) tk \<and>
      rendered new = snapshots_rendered F produce_key s (content s)
        (takeWhile (key_derived produce_key) tk) \<and>
      well_paced (vis_driven_event_id s) False new"
    by (simp_all add: dispatched_def)
  with run show ?thesis by (intro exI [of _ s'] conjI)
qed

theorem render_per_driving_event_witness:
  "taken key_of (node_ready\<lparr>event_manager := bus_ok\<rparr>)
     (sub_meta_events (node_ready\<lparr>event_manager := bus_ok\<rparr>)) =
     Some [(1005, radar_event ''radar_front''), (1009, driving_event 5 ''fusion'')] \<and>
   map_option fst (ProcEvents flags_on key_of (node_ready\<lparr>event_manager := bus_ok\<rparr>)) =
     Some Status_OK \<and>
   correlated (calls (snd (the (ProcEvents flags_on key_of
     (node_ready\<lparr>event_manager := bus_ok\<rparr>))))) =
     [(1005, radar_event ''radar_front''), (1009, driving_event 5 ''fusion'')] \<and>
   rendered (calls (snd (the (ProcEvents flags_on key_of
     (node_ready\<lparr>event_manager := bus_ok\<rparr>))))) =
     [FrameContent_empty\<lparr>radar_content := Some (5, [VisualObject 1]),
        fusion_content := Some (5, [VisualObject 2]), frame_timestamp := 5\<rparr>] \<and>
   taken key_of (node_ready\<lparr>event_manager := bus_bad\<rparr>)
     (sub_meta_events (node_ready\<lparr>event_manager := bus_bad\<rparr>)) =
     Some [(1005, radar_event ''radar_front''), (1005, radar_event ''bad''),
           (1005, radar_event ''radar_front'')] \<and>
   map_option fst (ProcEvents flags_on key_of (node_ready\<lparr>event_manager := bus_bad\<rparr>)) =
     Some (Status PERCEPTION_ERROR ''Failed to proc events.'') \<and>
   correlated (calls (snd (the (ProcEvents flags_on key_of
     (node_ready\<lparr>event_manager := bus_bad\<rparr>))))) = [(1005, radar_event ''radar_front'')] \<and>
   rendered (calls (snd (the (ProcEvents flags_on key_of
     (node_ready\<lparr>event_manager := bus_bad\<rparr>))))) = []"
  using render_per_driving_event [of key_of "node_ready\<lparr>event_manager := bus_ok\<rparr>"
      "[(1005, radar_event ''radar_front''), (1009, driving_event 5 ''fusion'')]" flags_on]
    render_per_driving_event [of key_of "node_ready\<lparr>event_manager := bus_bad\<rparr>"
      "[(1005, radar_event ''radar_front''), (1005, radar_event ''bad''),
        (1005, radar_event ''radar_front'')]" flags_on]
  by (simp add: ProcEvents_def node_ready_def node_fresh_def SubscribeEvents_def drain.simps
      Subscribe_def bus_ok_def bus_bad_def ProcEvent_def GetFrameData_def kind_chain_def
      Event_init_def key_of_def key_derived_def Let_def FrameContent_empty_def radar_event_def
      driving_event_def radar_branch_def fusion_branch_def flags_on_def SharedData_Get_def
      set_radar_content_def set_fusion_content_def update_timestamp_def)

text \<open>
  As the spec states it, C4 fails: the one event of the driving kind has a device label
  for which no key is derived. The cycle takes it from the bus, renders nothing and
  returns the failure status.
\<close>

theorem render_per_driving_event_counterexample:
  "EventMeta.event_id \<lparr>EventMeta.event_id = 1009\<rparr> =
     vis_driven_event_id (node_ready\<lparr>event_manager := bus_bad_driving\<rparr>) \<and>
   SubscribeEvents (node_ready\<lparr>event_manager := bus_bad_driving\<rparr>)
     \<lparr>EventMeta.event_id = 1009\<rparr> [] =
     Some (True, [driving_event 5 ''bad''], bus_bad_driving(1009 \<mapsto> [])) \<and>
   map_option fst (ProcEvents flags_on key_of (node_ready\<lparr>event_manager := bus_bad_driving\<rparr>)) =
     Some (Status PERCEPTION_ERROR ''Failed to proc events.'') \<and>
   rendered (calls (snd (the (ProcEvents flags_on key_of
     (node_ready\<lparr>event_manager := bus_bad_driving\<rparr>))))) = [] \<and>
   event_manager (snd (the (ProcEvents flags_on key_of
     (node_ready\<lparr>event_manager := bus_bad_driving\<rparr>)))) 1009 = Some []"
  by (simp add: ProcEvents_def node_ready_def node_fresh_def SubscribeEvents_def drain.simps
      Subscribe_def bus_bad_driving_def ProcEvent_def key_of_def Let_def driving_event_def
      Event_init_def)

text \<open>
  C8, as the code has it. When a lookup that \<^verbatim>\<open>GetFrameData\<close> made finds no payload, the
  radar content, the fused obstacles and the camera detections are as they were; the image
  is as it was when the image store is the one without a payload, and is already written
  when the image was found and the detection list of the camera or cipv kind was not. The
  cycle goes on whatever the stores hold: once the key of an event is derived,
  \<^verbatim>\<open>ProcEvents\<close> continues with the events after it; once the keys of the events of a
  kind are derived, it continues with the kinds after it; and a cycle whose events all
  have their key returns OK with every event it took from the bus correlated.
\<close>

theorem missing_payload:
  "GetFrameData F s event device_id data_key ts c = (c', lookups) \<Longrightarrow>
   Get store key \<in> set lookups \<Longrightarrow> \<not> payload_present s store key \<Longrightarrow>
   radar_content c' = radar_content c \<and> fusion_content c' = fusion_content c \<and>
   camera_content c' = camera_content c \<and>
   (store = CameraSharedData \<longrightarrow> image_content c' = image_content c) \<and>
   (store = CameraObjectData \<or> store = CIPVObjectData \<longrightarrow>
      (\<exists>item. camera_shared_data s key = Some (Some item) \<and>
              image_content c' = Some (ts, image_src_mat item))) \<and>
   (produce_key (timestamp event) (Event.reserve event) = Some data_key \<longrightarrow>
      ProcEvents_events F produce_key event_meta (event # events) s =
        ProcEvents_events F produce_key event_meta events
          (snd (ProcEvent F produce_key event_meta event s))) \<and>
   (SubscribeEvents s event_meta [] = Some (ok, subscribed, em') \<longrightarrow>
    list_all (key_derived produce_key) (map (Pair (EventMeta.event_id event_meta)) subscribed) \<longrightarrow>
      ProcEvents_metas F produce_key (event_meta # metas) s =
        ProcEvents_metas F produce_key metas
          (snd (ProcEvents_events F produce_key event_meta subscribed
                  (s\<lparr>event_manager := em'\<rparr>)))) \<and>
   (taken produce_key s (sub_meta_events s) = Some tk \<longrightarrow>
    list_all (key_derived produce_key) tk \<longrightarrow>
      (\<exists>s'. ProcEvents F produce_key s = Some (Status_OK, s') \<and>
            (\<exists>new. calls s' = calls s @ new \<and> correlated new = tk)))"
proof -
  assume get: "GetFrameData F s event device_id data_key ts c = (c', lookups)"
    and missing: "Get store key \<in> set lookups" "\<not> payload_present s store key"
  have fields: "radar_content c' = radar_content c \<and> fusion_content c' = fusion_content c \<and>
      camera_content c' = camera_content c \<and>
      (store = CameraSharedData \<longrightarrow> image_content c' = image_content c) \<and>
      (store = CameraObjectData \<or> store = CIPVObjectData \<longrightarrow>
        (\<exists>item. camera_shared_data s key = Some (Some item) \<and>
                image_content c' = Some (ts, image_src_mat item)))"
    using get missing kind_chain_missing [of store key F s event device_id data_key ts c]
      GetFrameData_fields [of F s event device_id data_key ts c]
      GetFrameData_lookups [of F s event device_id data_key ts c]
    by simp
  have events: "ProcEvents_events F produce_key event_meta (event # events) s =
      ProcEvents_events F produce_key event_meta events
        (snd (ProcEvent F produce_key event_meta event s))"
    if "produce_key (timestamp event) (Event.reserve event) = Some data_key"
    using that ProcEvents_events_step [of produce_key event data_key F event_meta events s]
    by simp
  have kinds: "ProcEvents_metas F produce_key (event_meta # metas) s =
      ProcEvents_metas F produce_key metas
        (snd (ProcEvents_events F produce_key event_meta subscribed (s\<lparr>event_manager := em'\<rparr>)))"
    if sub: "SubscribeEvents s event_meta [] = Some (ok, subscribed, em')"
      and keys: "list_all (key_derived produce_key)
        (map (Pair (EventMeta.event_id event_meta)) subscribed)"
  proof -
    have ok using SubscribeEvents_ok [OF sub] .
    obtain st2 s2 where ev: "ProcEvents_events F produce_key event_meta subscribed
        (s\<lparr>event_manager := em'\<rparr>) = (st2, s2)"
      by (cases "ProcEvents_events F produce_key event_meta subscribed (s\<lparr>event_manager := em'\<rparr>)")
    with keys ProcEvents_events_dispatched [OF ev] have "st2 = Status_OK" by simp
    with sub \<open>ok\<close> ev show ?thesis by (cases subscribed) (auto simp: Let_def)
  qed
  have cycle: "\<exists>s'. ProcEvents F produce_key s = Some (Status_OK, s') \<and>
      (\<exists>new. calls s' = calls s @ new \<and> correlated new = tk)"
    if tk: "taken produce_key s (sub_meta_events s) = Some tk"
      and keys: "list_all (key_derived produce_key) tk"
  proof -
    from ProcEvents_metas_dispatched [OF tk, of F] keys obtain s' where
      run: "ProcEvents F produce_key s = Some (Status_OK, s')"
      and "dispatched F produce_key s (takeWhile (key_derived produce_key) tk) s'"
      unfolding ProcEvents_def by auto
    moreover have "takeWhile (key_derived produce_key) tk = tk"
      using keys takeWhile_all_append [of "key_derived produce_key" tk "[]"] by simp
    ultimately have "\<exists>new. calls s' = calls s @ new \<and> correlated new = tk"
      by (auto simp: dispatched_def)
    with run show ?thesis by (intro exI [of _ s'] conjI)
  qed
  from fields events kinds cycle show ?thesis by blast
qed

theorem missing_payload_witness:
  "Get CameraObjectData ''camera'' \<in> set (snd (GetFrameData flags_on node_camera camera_event
      ''camera'' ''camera'' 5 FrameContent_empty)) \<and>
   \<not> payload_present node_camera CameraObjectData ''camera'' \<and>
   key_of (timestamp camera_event) (Event.reserve camera_event) = Some ''camera'' \<and>
   camera_content (fst (GetFrameData flags_on node_camera camera_event ''camera'' ''camera'' 5
      FrameContent_empty)) = None \<and>
   image_content (fst (GetFrameData flags_on node_camera camera_event ''camera'' ''camera'' 5
      FrameContent_empty)) = Some (5, Mat 1) \<and>
   ProcEvents_events flags_on key_of \<lparr>EventMeta.event_id = 1008\<rparr> [camera_event] node_camera =
     (Status_OK, snd (ProcEvent flags_on key_of \<lparr>EventMeta.event_id = 1008\<rparr> camera_event
        node_camera)) \<and>
   SubscribeEvents node_camera \<lparr>EventMeta.event_id = 1008\<rparr> [] =
     Some (True, [camera_event], (event_manager node_camera)(1008 \<mapsto> [])) \<and>
   taken key_of node_camera (sub_meta_events node_camera) =
     Some [(1008, camera_event), (1009, driving_event 5 ''fusion'')] \<and>
   list_all (key_derived key_of) [(1008, camera_event), (1009, driving_event 5 ''fusion'')] \<and>
   map_option fst (ProcEvents flags_on key_of node_camera) = Some Status_OK \<and>
   correlated (calls (snd (the (ProcEvents flags_on key_of node_camera)))) =
     [(1008, camera_event), (1009, driving_event 5 ''fusion'')] \<and>
   rendered (calls (snd (the (ProcEvents flags_on key_of node_camera)))) =
     [FrameContent_empty\<lparr>image_content := Some (5, Mat 1),
        fusion_content := Some (5, [VisualObject 2]), frame_timestamp := 5\<rparr>]"
  using missing_payload [where F = flags_on and s = node_camera and event = camera_event
      and device_id = "''camera''" and data_key = "''camera''" and ts = 5
      and c = FrameContent_empty
      and c' = "fst (GetFrameData flags_on node_camera camera_event ''camera'' ''camera'' 5
         FrameContent_empty)"
      and lookups = "snd (GetFrameData flags_on node_camera camera_event ''camera'' ''camera'' 5
         FrameContent_empty)"
      and store = CameraObjectData and key = "''camera''" and produce_key = key_of
      and event_meta = "\<lparr>EventMeta.event_id = 1008\<rparr>" and events = "[]"
      and ok = True and subscribed = "[camera_event]"
      and em' = "(event_manager node_camera)(1008 \<mapsto> [])"
      and metas = "[\<lparr>EventMeta.event_id = 1009\<rparr>]"
      and tk = "[(1008, camera_event), (1009, driving_event 5 ''fusion'')]"]
  by (simp add: ProcEvents_def node_camera_def node_ready_def node_fresh_def SubscribeEvents_def
      drain.simps Subscribe_def ProcEvent_def GetFrameData_def kind_chain_def camera_branch_def
      fusion_branch_def SharedData_Get_def set_image_content_def set_fusion_content_def
      update_timestamp_def payload_present_def flags_on_def camera_event_def driving_event_def
      FrameContent_empty_def key_of_def key_derived_def Event_init_def Let_def)

text \<open>
  As the spec states it, C8 fails: for a camera event whose image is in the store
  and whose detection list is not, the image of the snapshot is no longer what it was.
\<close>

theorem missing_payload_counterexample:
  "Event.event_id camera_event = camera_event_id node_ready \<and>
   camera_object_data node_ready ''camera'' = None \<and>
   image_content (fst (GetFrameData flags_on node_ready camera_event ''camera'' ''camera'' 5
      FrameContent_empty)) \<noteq> image_content FrameContent_empty"
  by (simp add: GetFrameData_def kind_chain_def camera_branch_def SharedData_Get_def
      set_image_content_def flags_on_def node_ready_def node_fresh_def camera_event_def
      FrameContent_empty_def)

subsection \<open>The lazy initialisation\<close>

lemma before_init_seen: "VisInit \<in> set xs \<Longrightarrow> before_init (xs @ ys) = before_init xs"
  by (simp add: before_init_def takeWhile_append1 [of VisInit])

lemma before_init_unseen: "VisInit \<notin> set xs \<Longrightarrow> before_init (xs @ ys) = xs @ before_init ys"
  by (auto simp: before_init_def intro: takeWhile_append2)

lemma before_init_subset: "set (before_init xs) \<subseteq> set xs"
  by (auto simp: before_init_def dest: set_takeWhileD)

lemma lookups_plain:
  assumes "\<forall>x \<in> set ls. \<exists>store. x = Get store k"
  shows "VisInit \<notin> set ls" and "count_list ls VisInit = 0"
    and "\<not> list_ex uses_visualizer ls" and "\<not> list_ex (is_correlate_of d) ls"
  using assms by (auto simp: list_ex_iff)

lemma initialised_once_refl: "initialised_once s s"
  by (simp add: initialised_once_def)

lemma initialised_once_trans:
  "initialised_once a b \<Longrightarrow> initialised_once b c \<Longrightarrow> initialised_once a c"
  by (simp add: initialised_once_def)

lemma initialised_once_bus: "initialised_once s (s\<lparr>event_manager := em\<rparr>)"
  by (simp add: initialised_once_def init_once_def)

lemma initialised_once_ProcEvent:
  "initialised_once s (snd (ProcEvent F produce_key event_meta event s))"
proof (cases "produce_key (timestamp event) (Event.reserve event)")
  case None
  then show ?thesis by (simp add: ProcEvent_None initialised_once_refl)
next
  case (Some data_key)
  let ?d = "vis_driven_event_id s"
  let ?ls = "snd (GetFrameData F s event (Event.reserve event) data_key (timestamp event)
    (content s))"
  note plain = lookups_plain [OF GetFrameData_lookups_Get
      [of F s event "Event.reserve event" data_key "timestamp event" "content s"]]
  note step = ProcEvent_Some [of produce_key event data_key F event_meta s, OF Some]
  show ?thesis unfolding initialised_once_def
  proof (intro conjI impI)
    show "vis_driven_event_id (snd (ProcEvent F produce_key event_meta event s)) = ?d"
      by (simp add: step)
  next
    assume inv: "init_once ?d s"
    show "init_once ?d (snd (ProcEvent F produce_key event_meta event s))"
    proof (cases "init s")
      case True
      with inv have one: "count_list (calls s) VisInit = 1"
        and corr: "list_ex (is_correlate_of ?d) (before_init (calls s))"
        and unused: "\<not> list_ex uses_visualizer (before_init (calls s))"
        by (simp_all add: init_once_def)
      from one have "VisInit \<in> set (calls s)"
        using count_list_0_iff [of "calls s" VisInit] by auto
      then have "before_init (calls s @ ys) = before_init (calls s)" for ys
        by (rule before_init_seen)
      with True one corr unused plain(2) [of ] show ?thesis
        by (simp add: step init_once_def)
    next
      case False
      with inv have none: "\<not> list_ex (\<lambda>x. x = VisInit \<or> uses_visualizer x \<or> is_correlate_of ?d x)
          (calls s)"
        by (simp add: init_once_def)
      then have unseen: "VisInit \<notin> set (calls s)" and zero: "count_list (calls s) VisInit = 0"
        and unused: "\<not> list_ex uses_visualizer (calls s)"
        and uncorr: "\<not> list_ex (is_correlate_of ?d) (calls s)"
        by (auto simp: list_ex_iff)
      show ?thesis
      proof (cases "EventMeta.event_id event_meta = ?d")
        case driving: True
        have "before_init (calls s @ Correlate ?d event # ?ls @
            [VisInit, VisUpdateCameraSystem c, VisRender c]) = calls s @ Correlate ?d event # ?ls"
          for c
          using unseen plain(1)
            before_init_unseen [of "calls s @ Correlate ?d event # ?ls"
              "[VisInit, VisUpdateCameraSystem c, VisRender c]"]
          by (simp add: before_init_def)
        with False driving zero unused plain show ?thesis
          by (simp add: step init_once_def)
      next
        case other: False
        with False none plain show ?thesis
          by (auto simp: step init_once_def list_ex_iff)
      qed
    qed
  qed
qed

lemma initialised_once_ProcEvents:
  "ProcEvents F produce_key s = Some (st, s') \<Longrightarrow> initialised_once s s'"
  using ProcEvents_metas_rel [of initialised_once F produce_key "sub_meta_events s" s st s',
      OF initialised_once_refl initialised_once_trans initialised_once_bus
        initialised_once_ProcEvent]
  by (simp add: ProcEvents_def)

lemma initialised_once_run:
  "run_cycles F produce_key inputs s = Some s' \<Longrightarrow> initialised_once s s'"
proof (induction inputs arbitrary: s)
  case Nil
  then show ?case by (simp add: initialised_once_refl)
next
  case (Cons i inputs)
  from Cons.prems obtain st s1 where
    cycle: "ProcEvents F produce_key (install i s) = Some (st, s1)"
    and rest: "run_cycles F produce_key inputs s1 = Some s'"
    by (auto split: option.splits)
  have "initialised_once s (install i s)"
    by (simp add: initialised_once_def init_once_def install_def)
  with initialised_once_ProcEvents [OF cycle] Cons.IH [OF rest] show ?case
    by (blast intro: initialised_once_trans)
qed

text \<open>
  C3. Over any number of cycles from a node that has not initialised the visualizer and
  has made no call: \<^verbatim>\<open>init()\<close> has been called once if an event of the driving kind has
  been correlated and not at all otherwise, never twice; the correlation of a driving
  event precedes it and no use of the visualizer does; and the flag \<open>init\<close> is set exactly
  when it has been called.
\<close>

theorem init_exactly_once:
  "\<not> init s0 \<Longrightarrow> calls s0 = [] \<Longrightarrow> run_cycles F produce_key inputs s0 = Some s \<Longrightarrow>
   count_list (calls s) VisInit =
     (if list_ex (is_correlate_of (vis_driven_event_id s0)) (calls s) then 1 else 0) \<and>
   (list_ex (is_correlate_of (vis_driven_event_id s0)) (calls s) \<longrightarrow>
      list_ex (is_correlate_of (vis_driven_event_id s0)) (before_init (calls s))) \<and>
   \<not> list_ex uses_visualizer (before_init (calls s)) \<and>
   (init s \<longleftrightarrow> list_ex (is_correlate_of (vis_driven_event_id s0)) (calls s))"
proof -
  assume fresh: "\<not> init s0" "calls s0 = []"
    and run: "run_cycles F produce_key inputs s0 = Some s"
  let ?d = "vis_driven_event_id s0"
  from fresh have "init_once ?d s0" by (simp add: init_once_def)
  with initialised_once_run [OF run] have inv: "init_once ?d s"
    by (simp add: initialised_once_def)
  show ?thesis
  proof (cases "init s")
    case True
    with inv have "count_list (calls s) VisInit = 1"
      and corr: "list_ex (is_correlate_of ?d) (before_init (calls s))"
      and "\<not> list_ex uses_visualizer (before_init (calls s))"
      by (simp_all add: init_once_def)
    moreover from corr before_init_subset [of "calls s"]
    have "list_ex (is_correlate_of ?d) (calls s)"
      by (auto simp: list_ex_iff)
    ultimately show ?thesis using True by simp
  next
    case False
    with inv have none: "\<not> list_ex (\<lambda>x. x = VisInit \<or> uses_visualizer x \<or> is_correlate_of ?d x)
        (calls s)"
      by (simp add: init_once_def)
    then have "VisInit \<notin> set (calls s)" "\<not> list_ex uses_visualizer (calls s)"
      "\<not> list_ex (is_correlate_of ?d) (calls s)"
      by (auto simp: list_ex_iff)
    moreover from this(2) before_init_subset [of "calls s"]
    have "\<not> list_ex uses_visualizer (before_init (calls s))"
      by (auto simp: list_ex_iff)
    ultimately show ?thesis using False by simp
  qed
qed

theorem init_exactly_once_witness:
  "\<not> init node_ready \<and> calls node_ready = [] \<and>
   run_cycles flags_on key_of [inputs_with bus_ok, inputs_with bus_ok] node_ready \<noteq> None \<and>
   list_ex (is_correlate_of (vis_driven_event_id node_ready))
     (calls (the (run_cycles flags_on key_of [inputs_with bus_ok, inputs_with bus_ok] node_ready))) \<and>
   count_list
     (calls (the (run_cycles flags_on key_of [inputs_with bus_ok, inputs_with bus_ok] node_ready)))
     VisInit = 1 \<and>
   length (filter is_render
     (calls (the (run_cycles flags_on key_of [inputs_with bus_ok, inputs_with bus_ok] node_ready))))
     = 2 \<and>
   before_init
     (calls (the (run_cycles flags_on key_of [inputs_with bus_ok, inputs_with bus_ok] node_ready)))
     = [Correlate 1005 (radar_event ''radar_front''), Get RadarObjectData ''radar_front'',
        Correlate 1009 (driving_event 5 ''fusion''), Get FusionSharedData ''fusion''] \<and>
   init (the (run_cycles flags_on key_of [inputs_with bus_ok, inputs_with bus_ok] node_ready))"
  using init_exactly_once [of node_ready flags_on key_of "[inputs_with bus_ok, inputs_with bus_ok]"
      "the (run_cycles flags_on key_of [inputs_with bus_ok, inputs_with bus_ok] node_ready)"]
  by (simp add: ProcEvents_def node_ready_def node_fresh_def SubscribeEvents_def drain.simps
      Subscribe_def bus_ok_def ProcEvent_def GetFrameData_def kind_chain_def Event_init_def
      key_of_def Let_def FrameContent_empty_def radar_event_def driving_event_def
      radar_branch_def fusion_branch_def flags_on_def SharedData_Get_def set_radar_content_def
      set_fusion_content_def update_timestamp_def inputs_with_def install_def before_init_def)

end
